theory Spec2Isabelle
  imports Complex_Main "HOL-Library.AList"
begin

section \<open>JavaScript values\<close>

text \<open>
  The playground is written in JavaScript, and the functions verified below receive
  untyped data: imported configurations, parameter metadata, backend responses. The
  values that JSON and object literals can build are embedded as a datatype. An object is
  the list of its own enumerable properties in the order \<^verbatim>\<open>Object.entries\<close>
  lists them; a well-formed object has pairwise distinct keys. Strings are lists of 8-bit
  code units.

  A number is \<^verbatim>\<open>NaN\<close>, an infinity, or a finite value kept as the exact
  rational it denotes. Rounding to the nearest double is not modelled; nothing below
  depends on it. Overflow to an infinity is modelled where a number is read from a string.
\<close>

datatype jsnum = NaN | PosInfinity | NegInfinity | Fin rat

datatype jsval =
    JUndefined
  | JNull
  | JBool bool
  | JNum jsnum
  | JStr string
  | JArr "jsval list"
  | JObj "(string \<times> jsval) list"

subsection \<open>Strings\<close>

text \<open>
  \<^verbatim>\<open>String.prototype.trim\<close> removes white space and line terminators from both
  ends: of the 8-bit code units these are TAB, LF, VT, FF, CR, SP and NBSP.
\<close>

definition isWhiteSpace :: "char \<Rightarrow> bool" where
  "isWhiteSpace c = (c \<in> set [CHR 0x09, CHR 0x0A, CHR 0x0B, CHR 0x0C, CHR 0x0D, CHR 0x20, CHR 0xA0])"

definition trim :: "string \<Rightarrow> string" where
  "trim s = rev (dropWhile isWhiteSpace (rev (dropWhile isWhiteSpace s)))"

text \<open>\<^verbatim>\<open>Array.prototype.join\<close> on an array of strings.\<close>

fun join :: "string \<Rightarrow> string list \<Rightarrow> string" where
  "join sep [] = []"
| "join sep [x] = x"
| "join sep (x # y # ys) = x @ sep @ join sep (y # ys)"

definition digitChar :: "nat \<Rightarrow> char" where
  "digitChar d = ''0123456789abcdef'' ! d"

text \<open>The decimal digits of a natural number, most significant first; none for zero.\<close>

function natDigits :: "nat \<Rightarrow> nat list" where
  "natDigits n = (if n = 0 then [] else natDigits (n div 10) @ [n mod 10])"
  by pat_completeness auto
termination
  by (relation "measure id") auto

declare natDigits.simps [simp del]

definition showNat :: "nat \<Rightarrow> string" where
  "showNat n = (if n = 0 then ''0'' else map digitChar (natDigits n))"

subsection \<open>Numbers to strings\<close>

text \<open>
  \<^verbatim>\<open>Number::toString\<close> in radix 10. A finite non-zero number is written from its
  decimal digits \<open>s\<close> (no leading or trailing zero, \<open>k\<close> of them) and the position
  \<open>n\<close> of the decimal point, the value being \<open>0.s \<times> 10\<^sup>n\<close>; the four layouts are
  those of the language standard. The digits are those of the exact decimal expansion of
  the rational, which is what JavaScript prints for the double nearest to a decimal of at
  most 15 significant digits.
\<close>

text \<open>
  The digits after the decimal point of \<open>r / d\<close> for a remainder \<open>r < d\<close>, by long
  division; a decimal that terminates does so within \<open>d\<close> digits.
\<close>

function fracDigits :: "nat \<Rightarrow> nat \<Rightarrow> nat \<Rightarrow> nat list" where
  "fracDigits fuel r d =
     (if fuel = 0 \<or> r = 0 then []
      else (10 * r div d) # fracDigits (fuel - 1) (10 * r mod d) d)"
  by pat_completeness auto
termination
  by (relation "measure (\<lambda>(fuel, r, d). fuel)") auto

declare fracDigits.simps [simp del]

definition showExponent :: "int \<Rightarrow> string" where
  "showExponent e = (if e < 0 then ''e-'' else ''e+'') @ showNat (nat \<bar>e\<bar>)"

definition ratToString :: "rat \<Rightarrow> string" where
  "ratToString q =
     (if q = 0 then ''0''
      else
        let (a, b) = quotient_of \<bar>q\<bar>;
            intPart = natDigits (nat a div nat b);
            fracPart = fracDigits (nat b) (nat a mod nat b) (nat b);
            allDigits = intPart @ fracPart;
            leadingZeros = length (takeWhile (\<lambda>d. d = 0) allDigits);
            s = rev (dropWhile (\<lambda>d. d = 0) (rev (dropWhile (\<lambda>d. d = 0) allDigits)));
            k = int (length s);
            n = int (length intPart) - int leadingZeros;
            digits = map digitChar s;
            sign = (if q < 0 then ''-'' else '''')
        in sign @
          (if k \<le> n \<and> n \<le> 21 then digits @ replicate (nat (n - k)) CHR ''0''
           else if 0 < n \<and> n \<le> 21 then take (nat n) digits @ ''.'' @ drop (nat n) digits
           else if - 6 < n \<and> n \<le> 0 then ''0.'' @ replicate (nat (- n)) CHR ''0'' @ digits
           else if k = 1 then digits @ showExponent (n - 1)
           else take 1 digits @ ''.'' @ drop 1 digits @ showExponent (n - 1)))"

definition numberToString :: "jsnum \<Rightarrow> string" where
  "numberToString x =
     (case x of
        NaN \<Rightarrow> ''NaN''
      | PosInfinity \<Rightarrow> ''Infinity''
      | NegInfinity \<Rightarrow> ''-Infinity''
      | Fin q \<Rightarrow> ratToString q)"

text \<open>
  \<^verbatim>\<open>String(v)\<close>. An array is the comma-joined strings of its elements, with
  \<^verbatim>\<open>null\<close> and \<^verbatim>\<open>undefined\<close> elements written as the empty string; a plain
  object is \<^verbatim>\<open>[object Object]\<close>.
\<close>

fun ToString :: "jsval \<Rightarrow> string" where
  "ToString JUndefined = ''undefined''"
| "ToString JNull = ''null''"
| "ToString (JBool b) = (if b then ''true'' else ''false'')"
| "ToString (JNum x) = numberToString x"
| "ToString (JStr s) = s"
| "ToString (JArr xs) =
     join '','' (map (\<lambda>x. if x = JUndefined \<or> x = JNull then '''' else ToString x) xs)"
| "ToString (JObj kvs) = ''[object Object]''"

subsection \<open>Strings to numbers\<close>

text \<open>
  \<^verbatim>\<open>Number(s)\<close> on a string follows the grammar of string numeric literals: the
  trimmed string is empty (zero), a hexadecimal, octal or binary integer with its prefix,
  or an optionally signed decimal with optional fraction and exponent, or
  \<^verbatim>\<open>Infinity\<close>; anything else is \<^verbatim>\<open>NaN\<close>. A decimal whose magnitude
  reaches \<open>2\<^sup>1\<^sup>0\<^sup>2\<^sup>4 - 2\<^sup>9\<^sup>7\<^sup>0\<close> rounds to an infinity.
\<close>

definition digitValue :: "char \<Rightarrow> nat option" where
  "digitValue c =
     (let n = (of_char c :: nat) in
      if 48 \<le> n \<and> n \<le> 57 then Some (n - 48)
      else if 97 \<le> n \<and> n \<le> 102 then Some (n - 87)
      else if 65 \<le> n \<and> n \<le> 70 then Some (n - 55)
      else None)"

definition isDigitOf :: "nat \<Rightarrow> char \<Rightarrow> bool" where
  "isDigitOf base c = (case digitValue c of None \<Rightarrow> False | Some d \<Rightarrow> d < base)"

definition digitsValue :: "nat \<Rightarrow> string \<Rightarrow> nat" where
  "digitsValue base s = foldl (\<lambda>acc c. acc * base + (case digitValue c of Some d \<Rightarrow> d | None \<Rightarrow> 0)) 0 s"

definition parseRadix :: "nat \<Rightarrow> string \<Rightarrow> rat option" where
  "parseRadix base s =
     (if s \<noteq> [] \<and> list_all (isDigitOf base) s then Some (of_nat (digitsValue base s)) else None)"

definition parseNonDecimal :: "string \<Rightarrow> rat option" where
  "parseNonDecimal s =
     (case s of
        z # p # ds \<Rightarrow>
          if z \<noteq> CHR ''0'' then None
          else if p = CHR ''x'' \<or> p = CHR ''X'' then parseRadix 16 ds
          else if p = CHR ''o'' \<or> p = CHR ''O'' then parseRadix 8 ds
          else if p = CHR ''b'' \<or> p = CHR ''B'' then parseRadix 2 ds
          else None
      | _ \<Rightarrow> None)"

definition parseMantissa :: "string \<Rightarrow> rat option" where
  "parseMantissa s =
     (let ip = takeWhile (isDigitOf 10) s; rest = dropWhile (isDigitOf 10) s in
      case rest of
        [] \<Rightarrow> if ip = [] then None else Some (of_nat (digitsValue 10 ip))
      | c # fp \<Rightarrow>
          if c = CHR ''.'' \<and> list_all (isDigitOf 10) fp \<and> (ip \<noteq> [] \<or> fp \<noteq> [])
          then Some (of_nat (digitsValue 10 ip) + of_nat (digitsValue 10 fp) / 10 ^ length fp)
          else None)"

definition parseExponent :: "string \<Rightarrow> int option" where
  "parseExponent s =
     (let (neg, ds) =
        (case s of
           c # r \<Rightarrow> if c = CHR ''-'' then (True, r) else if c = CHR ''+'' then (False, r) else (False, s)
         | [] \<Rightarrow> (False, s))
      in if ds \<noteq> [] \<and> list_all (isDigitOf 10) ds
         then Some (if neg then - int (digitsValue 10 ds) else int (digitsValue 10 ds))
         else None)"

definition roundOverflow :: "rat \<Rightarrow> jsnum" where
  "roundOverflow q =
     (if 2 ^ 1024 - 2 ^ 970 \<le> q then PosInfinity
      else if q \<le> - (2 ^ 1024 - 2 ^ 970) then NegInfinity
      else Fin q)"

definition parseUnsignedDecimal :: "string \<Rightarrow> jsnum option" where
  "parseUnsignedDecimal s =
     (if s = ''Infinity'' then Some PosInfinity
      else
        let isE = (\<lambda>c. c = CHR ''e'' \<or> c = CHR ''E'');
            m = takeWhile (\<lambda>c. \<not> isE c) s;
            rest = dropWhile (\<lambda>c. \<not> isE c) s
        in case rest of
             [] \<Rightarrow> map_option roundOverflow (parseMantissa m)
           | _ # ex \<Rightarrow>
               (case (parseMantissa m, parseExponent ex) of
                  (Some q, Some e) \<Rightarrow> Some (roundOverflow (q * 10 powi e))
                | _ \<Rightarrow> None))"

definition negate :: "jsnum \<Rightarrow> jsnum" where
  "negate x =
     (case x of NaN \<Rightarrow> NaN | PosInfinity \<Rightarrow> NegInfinity | NegInfinity \<Rightarrow> PosInfinity
      | Fin q \<Rightarrow> Fin (- q))"

definition parseDecimal :: "string \<Rightarrow> jsnum option" where
  "parseDecimal s =
     (case s of
        c # r \<Rightarrow>
          if c = CHR ''+'' then parseUnsignedDecimal r
          else if c = CHR ''-'' then map_option negate (parseUnsignedDecimal r)
          else parseUnsignedDecimal s
      | [] \<Rightarrow> None)"

definition StringToNumber :: "string \<Rightarrow> jsnum" where
  "StringToNumber s =
     (let t = trim s in
      if t = [] then Fin 0
      else case parseNonDecimal t of
             Some q \<Rightarrow> roundOverflow q
           | None \<Rightarrow> (case parseDecimal t of Some x \<Rightarrow> x | None \<Rightarrow> NaN))"

text \<open>\<^verbatim>\<open>Number(v)\<close>: an array is converted through its string.\<close>

definition ToNumber :: "jsval \<Rightarrow> jsnum" where
  "ToNumber v =
     (case v of
        JUndefined \<Rightarrow> NaN
      | JNull \<Rightarrow> Fin 0
      | JBool b \<Rightarrow> Fin (if b then 1 else 0)
      | JNum x \<Rightarrow> x
      | JStr s \<Rightarrow> StringToNumber s
      | JArr xs \<Rightarrow> StringToNumber (ToString (JArr xs))
      | JObj kvs \<Rightarrow> NaN)"

definition isFinite :: "jsnum \<Rightarrow> bool" where
  "isFinite x = (case x of Fin q \<Rightarrow> True | _ \<Rightarrow> False)"

text \<open>The relational operators on numbers: every comparison with \<^verbatim>\<open>NaN\<close> is false.\<close>

definition numLess :: "jsnum \<Rightarrow> jsnum \<Rightarrow> bool" where
  "numLess x y =
     (case (x, y) of
        (NaN, _) \<Rightarrow> False
      | (_, NaN) \<Rightarrow> False
      | (Fin a, Fin b) \<Rightarrow> a < b
      | (NegInfinity, NegInfinity) \<Rightarrow> False
      | (NegInfinity, _) \<Rightarrow> True
      | (_, PosInfinity) \<Rightarrow> y \<noteq> x
      | _ \<Rightarrow> False)"

subsection \<open>Truthiness, types and properties\<close>

definition truthy :: "jsval \<Rightarrow> bool" where
  "truthy v =
     (case v of
        JUndefined \<Rightarrow> False
      | JNull \<Rightarrow> False
      | JBool b \<Rightarrow> b
      | JNum x \<Rightarrow> x \<noteq> NaN \<and> x \<noteq> Fin 0
      | JStr s \<Rightarrow> s \<noteq> []
      | JArr xs \<Rightarrow> True
      | JObj kvs \<Rightarrow> True)"

text \<open>\<^verbatim>\<open>typeof v === "object"\<close> holds of \<^verbatim>\<open>null\<close>, arrays and objects.\<close>

definition typeofObject :: "jsval \<Rightarrow> bool" where
  "typeofObject v = (case v of JNull \<Rightarrow> True | JArr xs \<Rightarrow> True | JObj kvs \<Rightarrow> True | _ \<Rightarrow> False)"

definition isArray :: "jsval \<Rightarrow> bool" where
  "isArray v = (case v of JArr xs \<Rightarrow> True | _ \<Rightarrow> False)"

definition isString :: "jsval \<Rightarrow> bool" where
  "isString v = (case v of JStr s \<Rightarrow> True | _ \<Rightarrow> False)"

definition isNullish :: "jsval \<Rightarrow> bool" where
  "isNullish v = (v = JUndefined \<or> v = JNull)"

text \<open>\<^verbatim>\<open>a || b\<close> on values.\<close>

definition orElse :: "jsval \<Rightarrow> jsval \<Rightarrow> jsval" where
  "orElse a b = (if truthy a then a else b)"

text \<open>
  Reading a property. The names this program reads are fixed (\<^verbatim>\<open>options\<close>,
  \<^verbatim>\<open>kind\<close>, \<^verbatim>\<open>controls\<close>, \<^verbatim>\<open>steps\<close>, \<^verbatim>\<open>layers\<close>,
  \<^verbatim>\<open>params\<close>, \<^verbatim>\<open>episodes\<close>, \<^verbatim>\<open>per_step\<close>, ...) or keys of the
  parameter metadata: an object yields its own property or \<^verbatim>\<open>undefined\<close>;
  arrays and primitives have no property of the fixed names. A key that names a member of
  \<^verbatim>\<open>Object.prototype\<close> would find that member; such parameter keys are outside
  this model. Reading from \<^verbatim>\<open>null\<close> or \<^verbatim>\<open>undefined\<close> throws: every
  function below reads only behind the guard the source has.
\<close>

definition get :: "jsval \<Rightarrow> string \<Rightarrow> jsval" where
  "get v k =
     (case v of
        JObj kvs \<Rightarrow> (case map_of kvs k of Some x \<Rightarrow> x | None \<Rightarrow> JUndefined)
      | _ \<Rightarrow> JUndefined)"

text \<open>
  The own properties of an object or an array, for a lookup by a computed key
  (\<^verbatim>\<open>hasOwnProperty\<close>): an array owns its indices and \<^verbatim>\<open>length\<close>.
\<close>

definition ownProps :: "jsval \<Rightarrow> (string \<times> jsval) list" where
  "ownProps v =
     (case v of
        JObj kvs \<Rightarrow> kvs
      | JArr xs \<Rightarrow>
          zip (map showNat [0..<length xs]) xs @ [(''length'', JNum (Fin (of_nat (length xs))))]
      | _ \<Rightarrow> [])"

definition getOwn :: "jsval \<Rightarrow> string \<Rightarrow> jsval option" where
  "getOwn v k = map_of (ownProps v) k"

section \<open>Categorical parameter metadata\<close>

text \<open>
  \<^verbatim>\<open>parseNumberish\<close>: a finite number, or a string that trims to a non-empty
  numeric literal of finite value, is that number; everything else is \<^verbatim>\<open>null\<close>
  (here \<open>None\<close>).
\<close>

definition parseNumberish :: "jsval \<Rightarrow> jsnum option" where
  "parseNumberish v =
     (case v of
        JNum x \<Rightarrow> if isFinite x then Some x else None
      | JStr s \<Rightarrow>
          let trimmed = trim s in
          if trimmed = [] then None
          else let parsed = StringToNumber trimmed in
               if isFinite parsed then Some parsed else None
      | _ \<Rightarrow> None)"

text \<open>
  The normalized metadata of a categorical parameter, as \<^verbatim>\<open>normalizeCategoryMeta\<close>
  returns it. The field \<^verbatim>\<open>value\<close> is \<open>meta_value\<close> here; \<open>meta_map\<close> is the
  object \<^verbatim>\<open>map\<close>.
\<close>

text \<open>
  The object \<^verbatim>\<open>map\<close> is created by the literal \<^verbatim>\<open>{}\<close> and filled by
  assignments \<^verbatim>\<open>map[opt] = ...\<close> with option labels as keys, among them possibly
  \<^verbatim>\<open>__proto__\<close>; so the object is kept with its own properties, as a finite map
  since nothing reads their order, and with its prototype: \<^verbatim>\<open>Object.prototype\<close>,
  \<^verbatim>\<open>null\<close>, or a value of the source map. The values of this model are data as
  \<^verbatim>\<open>JSON.parse\<close>, object literals and the spread syntax make them: an object has
  its own properties and the prototype \<^verbatim>\<open>Object.prototype\<close>, an array owns its
  indices and \<^verbatim>\<open>length\<close> and has the prototype \<^verbatim>\<open>Array.prototype\<close>.
\<close>

datatype prototype = ObjectPrototype | NullPrototype | ValuePrototype jsval

record map_object =
  ownEntries :: "string \<rightharpoonup> jsval"
  prototypeOf :: prototype

text \<open>
  Whether the assignment \<^verbatim>\<open>map["__proto__"] = v\<close> ends in the setter of the
  accessor \<^verbatim>\<open>Object.prototype.__proto__\<close>: the object has no own property of
  that name, and the search along the prototype chain reaches \<^verbatim>\<open>Object.prototype\<close>
  without meeting an object that owns one.
\<close>

definition reachesProtoSetter :: "map_object \<Rightarrow> bool" where
  "reachesProtoSetter m =
     (ownEntries m ''__proto__'' = None
      \<and> (case prototypeOf m of
            ObjectPrototype \<Rightarrow> True
          | NullPrototype \<Rightarrow> False
          | ValuePrototype p \<Rightarrow>
              (case p of JObj kvs \<Rightarrow> map_of kvs ''__proto__'' = None | _ \<Rightarrow> True)))"

text \<open>
  The setter: a value that is an object, an array or \<^verbatim>\<open>null\<close> becomes the
  prototype of the receiver; any other value is ignored.
\<close>

definition setterPrototype :: "prototype \<Rightarrow> jsval \<Rightarrow> prototype" where
  "setterPrototype current v =
     (case v of
        JNull \<Rightarrow> NullPrototype
      | JObj kvs \<Rightarrow> ValuePrototype v
      | JArr xs \<Rightarrow> ValuePrototype v
      | _ \<Rightarrow> current)"

text \<open>
  The assignment \<^verbatim>\<open>map[k] = v\<close>. Every member of \<^verbatim>\<open>Object.prototype\<close>
  and \<^verbatim>\<open>Array.prototype\<close> other than \<^verbatim>\<open>__proto__\<close> is a writable data
  property, as are the properties of a value of the model: an assignment to such a name
  creates an own property of the receiver, as it does for a name found nowhere on the
  chain, and replaces the value of an own property there is.
\<close>

definition assignProperty :: "map_object \<Rightarrow> string \<Rightarrow> jsval \<Rightarrow> map_object" where
  "assignProperty m k v =
     (if k = ''__proto__'' \<and> reachesProtoSetter m
      then m\<lparr> prototypeOf := setterPrototype (prototypeOf m) v \<rparr>
      else m\<lparr> ownEntries := (ownEntries m)(k \<mapsto> v) \<rparr>)"

record category_meta =
  meta_type :: string
  meta_kind :: jsval
  meta_options :: "string list"
  meta_value :: string
  meta_map :: map_object

text \<open>
  The option labels (lines 506 to 515): the declared options as trimmed strings without
  the empty ones; when none is left, the trimmed fallback label if that is not empty. The
  parameter default \<^verbatim>\<open>fallbackValue = ""\<close> applies when the argument is
  \<^verbatim>\<open>undefined\<close>, so \<^verbatim>\<open>info.value\<close> is consulted only for a
  \<^verbatim>\<open>null\<close> argument.
\<close>

definition fallbackLabelOf :: "jsval \<Rightarrow> jsval \<Rightarrow> string" where
  "fallbackLabelOf info fallbackValue =
     (let fallbackValue' = (if fallbackValue = JUndefined then JStr [] else fallbackValue);
          fallback =
            (if \<not> isNullish fallbackValue' then fallbackValue'
             else if \<not> isNullish (get info ''value'') then get info ''value''
             else JStr [])
      in trim (ToString fallback))"

definition normalizedOptions :: "jsval \<Rightarrow> jsval \<Rightarrow> string list" where
  "normalizedOptions info fallbackValue =
     (let rawOptions = (case get info ''options'' of JArr xs \<Rightarrow> xs | _ \<Rightarrow> []);
          options = filter (\<lambda>s. s \<noteq> []) (map (\<lambda>opt. trim (ToString opt)) rawOptions);
          fallbackLabel = fallbackLabelOf info fallbackValue
      in if options = [] \<and> fallbackLabel \<noteq> [] then options @ [fallbackLabel] else options)"

text \<open>
  The value one step of the loop assigns to \<^verbatim>\<open>map[opt]\<close> (lines 520 to 527): for
  an option the source map owns, its parsed number, or the raw mapped value when that does
  not parse; for any other option, its index.
\<close>

definition mapEntry :: "jsval \<Rightarrow> string \<Rightarrow> nat \<Rightarrow> jsval" where
  "mapEntry sourceMap opt idx =
     (case getOwn sourceMap opt of
        Some raw \<Rightarrow> (case parseNumberish raw of Some mapped \<Rightarrow> JNum mapped | None \<Rightarrow> raw)
      | None \<Rightarrow> JNum (Fin (of_nat idx)))"

definition sourceMapOf :: "jsval \<Rightarrow> jsval" where
  "sourceMapOf info =
     (if truthy (get info ''map'') \<and> typeofObject (get info ''map'')
      then get info ''map'' else JObj [])"

definition normalizeCategoryMeta :: "jsval \<Rightarrow> jsval \<Rightarrow> category_meta" where
  "normalizeCategoryMeta info fallbackValue =
     (let options = normalizedOptions info fallbackValue;
          fallbackLabel = fallbackLabelOf info fallbackValue;
          selected =
            (if ToString (get info ''value'') \<in> set options then ToString (get info ''value'')
             else case options of
                    [] \<Rightarrow> fallbackLabel
                  | first # _ \<Rightarrow> if first \<noteq> [] then first else fallbackLabel);
          sourceMap = sourceMapOf info;
          filled =
            fold (\<lambda>(idx, opt) m. assignProperty m opt (mapEntry sourceMap opt idx))
              (enumerate 0 options) \<lparr> ownEntries = Map.empty, prototypeOf = ObjectPrototype \<rparr>
      in \<lparr> meta_type = ''category'',
           meta_kind = orElse (get info ''kind'') (JStr ''condition''),
           meta_options = options,
           meta_value = selected,
           meta_map = filled \<rparr>)"

section \<open>The scenario enumerator\<close>

text \<open>
  A component of the editor state, with the fields the enumerator reads. Components are
  built by \<^verbatim>\<open>buildComponent\<close> and \<^verbatim>\<open>applyConfigToState\<close>, which make
  \<^verbatim>\<open>params\<close> and \<^verbatim>\<open>paramMeta\<close> plain objects; the component's
  \<^verbatim>\<open>id\<close> is \<open>comp_id\<close>. The enumerator receives
  \<^verbatim>\<open>Object.values(state.components)\<close>.
\<close>

record component =
  comp_id :: string
  params :: "(string \<times> jsval) list"
  paramMeta :: "(string \<times> jsval) list"

record category =
  componentId :: string
  key :: string
  options :: "string list"

record scenario =
  label :: string
  overrides :: "(string \<times> string) list"

text \<open>
  The axis one metadata entry contributes (lines 1047 to 1056): none unless the entry is
  categorical, of kind \<^verbatim>\<open>condition\<close> and left with at least one option.
\<close>

definition categoryOf :: "component \<Rightarrow> string \<times> jsval \<Rightarrow> category list" where
  "categoryOf c entry =
     (case entry of (k, info) \<Rightarrow>
        if get info ''type'' = JStr ''category'' then
          let normalized = normalizeCategoryMeta info (get (JObj (params c)) k) in
          if orElse (meta_kind normalized) (JStr ''condition'') \<noteq> JStr ''condition'' then []
          else if meta_options normalized = [] then []
          else [\<lparr> componentId = comp_id c, key = k, options = meta_options normalized \<rparr>]
        else [])"

definition collectCategories :: "component list \<Rightarrow> category list" where
  "collectCategories components =
     concat (map (\<lambda>c. concat (map (categoryOf c) (paramMeta c))) components)"

definition compoundKey :: "category \<Rightarrow> string" where
  "compoundKey cat = componentId cat @ ''::'' @ key cat"

definition labelPart :: "category \<Rightarrow> string \<Rightarrow> string" where
  "labelPart cat opt = componentId cat @ ''.'' @ key cat @ ''='' @ opt"

text \<open>
  The recursive \<^verbatim>\<open>walk(i, current, labelParts)\<close>, on the axes from index \<open>i\<close> on.
  Each call copies \<^verbatim>\<open>current\<close> and assigns one property: an assignment to a key
  the object has replaces the value in place, any other key is appended, which is
  \<^const>\<open>AList.update\<close>. The scenarios are pushed in depth-first order.
\<close>

fun walk :: "category list \<Rightarrow> (string \<times> string) list \<Rightarrow> string list \<Rightarrow> scenario list" where
  "walk [] current labelParts = [\<lparr> label = join '', '' labelParts, overrides = current \<rparr>]"
| "walk (cat # cats) current labelParts =
     concat (map (\<lambda>opt. walk cats (AList.update (compoundKey cat) opt current)
                               (labelParts @ [labelPart cat opt]))
                 (options cat))"

definition buildScenarioList :: "component list \<Rightarrow> scenario list" where
  "buildScenarioList components =
     (let categories = collectCategories components in
      if categories = [] then [\<lparr> label = ''Base'', overrides = [] \<rparr>]
      else walk categories [] [])"

section \<open>Structured errors\<close>

text \<open>
  The error codes of \<^verbatim>\<open>ERROR_CODES\<close> that the verified functions use.
\<close>

definition CFG_INVALID :: string where "CFG_INVALID = ''validation.cfg_invalid''"
definition STEPS_INVALID :: string where "STEPS_INVALID = ''validation.steps_invalid''"
definition STEPS_LIMIT :: string where "STEPS_LIMIT = ''validation.steps_limit''"
definition EPISODES_INVALID :: string where "EPISODES_INVALID = ''validation.episodes_invalid''"
definition EPISODES_LIMIT :: string where "EPISODES_LIMIT = ''validation.episodes_limit''"
definition LAYERS_INVALID :: string where "LAYERS_INVALID = ''validation.layers_invalid''"
definition LAYER_EMPTY :: string where "LAYER_EMPTY = ''validation.layer_empty''"
definition STREAM_INVALID :: string where "STREAM_INVALID = ''validation.stream_invalid''"
definition TYPE_MISSING :: string where "TYPE_MISSING = ''validation.type_missing''"
definition PARAM_MISSING :: string where "PARAM_MISSING = ''validation.param_missing''"
definition LOAD_FAILED :: string where "LOAD_FAILED = ''runtime.load_failed''"
definition CANCELLED :: string where "CANCELLED = ''runtime.cancelled''"
definition LIMIT_EXCEEDED :: string where "LIMIT_EXCEEDED = ''runtime.limit_exceeded''"
definition FAILED :: string where "FAILED = ''runtime.failed''"
definition BAD_RESULT_SHAPE :: string where "BAD_RESULT_SHAPE = ''runtime.bad_result_shape''"
definition UNKNOWN_CONFIG_VERSION :: string where
  "UNKNOWN_CONFIG_VERSION = ''compat.unknown_config_version''"

text \<open>
  \<^verbatim>\<open>createError(code, message, hints, details)\<close> builds a plain object. An omitted
  \<^verbatim>\<open>hints\<close> or \<^verbatim>\<open>details\<close> is \<^verbatim>\<open>undefined\<close>, which the two guards
  turn into the same empty array and empty object as the parameter defaults do.
\<close>

definition createError :: "jsval \<Rightarrow> jsval \<Rightarrow> jsval \<Rightarrow> jsval \<Rightarrow> jsval" where
  "createError c m hs ds =
     JObj [(''code'', c),
           (''message'', m),
           (''hints'', if isArray hs then hs else JArr []),
           (''details'', if truthy ds \<and> typeofObject ds then ds else JObj [])]"

text \<open>
  What a \<^verbatim>\<open>throw\<close> carries: a value of the program, or an \<^verbatim>\<open>Error\<close>
  instance raised by the engine or the browser, known by its name and message.
\<close>

datatype thrown = ThrownValue jsval | ThrownError string string

definition normalizeError :: "thrown \<Rightarrow> jsval \<Rightarrow> jsval \<Rightarrow> jsval \<Rightarrow> jsval" where
  "normalizeError err fallbackCode fallbackMessage fallbackHints =
     (case err of
        ThrownValue v \<Rightarrow>
          if truthy v \<and> typeofObject v \<and> isString (get v ''code'') \<and> isString (get v ''message'')
          then createError (get v ''code'') (get v ''message'')
                 (orElse (get v ''hints'') (JArr [])) (orElse (get v ''details'') (JObj []))
          else createError fallbackCode fallbackMessage fallbackHints
                 (JObj [(''raw'', JStr (ToString v))])
      | ThrownError name msg \<Rightarrow>
          createError fallbackCode fallbackMessage fallbackHints
            (JObj [(''raw'', JStr (name @ '': '' @ msg))]))"

section \<open>Configuration validation\<close>

text \<open>
  \<^verbatim>\<open>RUN_LIMITS\<close>, with the values of the current \<^verbatim>\<open>state.js\<close>.
\<close>

record run_limits =
  maxSteps :: nat
  maxEpisodes :: nat
  maxScenarios :: nat
  maxRunMs :: nat

definition RUN_LIMITS :: run_limits where
  "RUN_LIMITS = \<lparr> maxSteps = 500, maxEpisodes = 20, maxScenarios = 64, maxRunMs = 45000 \<rparr>"

definition numOfNat :: "nat \<Rightarrow> jsnum" where
  "numOfNat n = Fin (of_nat n)"

record controls =
  steps :: jsnum
  episodes :: jsnum
  seed :: jsnum

definition readControls :: "jsval \<Rightarrow> controls" where
  "readControls config =
     (if \<not> truthy config \<or> \<not> typeofObject config
      then \<lparr> steps = NaN, episodes = NaN, seed = NaN \<rparr>
      else if truthy (get config ''controls'') \<and> typeofObject (get config ''controls'')
      then \<lparr> steps = ToNumber (get (get config ''controls'') ''steps''),
             episodes = ToNumber (get (get config ''controls'') ''episodes''),
             seed = ToNumber (get (get config ''controls'') ''seed'') \<rparr>
      else \<lparr> steps = ToNumber (get config ''steps''),
             episodes = ToNumber (get config ''episodes''),
             seed = ToNumber (get config ''seed'') \<rparr>)"

text \<open>
  The property names every object inherits from \<^verbatim>\<open>Object.prototype\<close>, and every
  array from \<^verbatim>\<open>Array.prototype\<close> besides. They matter in two places of the
  validator: the lookup \<^verbatim>\<open>streamDefs[stream.type]\<close> finds an inherited member
  for such a name, and the operator \<^verbatim>\<open>in\<close> searches the prototype chain.
\<close>

definition objectPrototypeKeys :: "string list" where
  "objectPrototypeKeys =
     [''constructor'', ''hasOwnProperty'', ''isPrototypeOf'', ''propertyIsEnumerable'',
      ''toLocaleString'', ''toString'', ''valueOf'', ''__proto__'', ''__defineGetter__'',
      ''__defineSetter__'', ''__lookupGetter__'', ''__lookupSetter__'']"

definition arrayPrototypeKeys :: "string list" where
  "arrayPrototypeKeys =
     [''at'', ''concat'', ''copyWithin'', ''entries'', ''every'', ''fill'', ''filter'', ''find'',
      ''findIndex'', ''findLast'', ''findLastIndex'', ''flat'', ''flatMap'', ''forEach'',
      ''includes'', ''indexOf'', ''join'', ''keys'', ''lastIndexOf'', ''map'', ''pop'', ''push'',
      ''reduce'', ''reduceRight'', ''reverse'', ''shift'', ''slice'', ''some'', ''sort'',
      ''splice'', ''toReversed'', ''toSorted'', ''toSpliced'', ''unshift'', ''values'', ''with'']"

text \<open>
  \<^verbatim>\<open>k in v\<close>: a \<^verbatim>\<open>TypeError\<close> (here \<open>None\<close>) unless \<open>v\<close> is an object.
  The validator applies it to \<^verbatim>\<open>stream.params || {}\<close>, which is never
  \<^verbatim>\<open>null\<close>.
\<close>

definition hasProperty :: "string \<Rightarrow> jsval \<Rightarrow> bool option" where
  "hasProperty k v =
     (case v of
        JObj kvs \<Rightarrow> Some (k \<in> set (map fst kvs) \<or> k \<in> set objectPrototypeKeys)
      | JArr xs \<Rightarrow>
          Some (k \<in> set (map fst (ownProps (JArr xs))) \<or> k \<in> set arrayPrototypeKeys
                \<or> k \<in> set objectPrototypeKeys)
      | _ \<Rightarrow> None)"

text \<open>
  \<^verbatim>\<open>STREAM_DEFS\<close> is an object literal from stream type to the array of its
  parameter definitions; the validator reads only the \<^verbatim>\<open>key\<close> of a definition, so
  the table is kept as the list of keys per type.
\<close>

type_synonym stream_defs = "(string \<times> string list) list"

definition STREAM_DEFS :: stream_defs where
  "STREAM_DEFS =
     [(''Custom'', []),
      (''GovernmentPolicy'', [''tax'']),
      (''IndustryRegime'', [''audit_prob'', ''penalty_intensity'']),
      (''MarketSignal'', [''base_demand'', ''growth_rate'', ''market_power'']),
      (''FirmGroup'', [''firm_count'', ''costs'', ''initial_balance'']),
      (''AllianceMediator'', [''side_payment'']),
      (''AllianceRule'', [''rule'']),
      (''GroupGamingRule'', [''mode'']),
      (''PayoffAccounting'', [''strategy'']),
      (''PayoffAccountingGroup'', [''alliance_weight'']),
      (''AggregatorFirm'', [''risk_penalty'']),
      (''AggregatorTotalWealth'', [''metric'']),
      (''AggregatorInequality'', [''metric'']),
      (''Climate'', [''amp'', ''period'', ''shock_prob'']),
      (''Landscape'', [''n_patches'', ''fragmentation'', ''move_cost'']),
      (''PreyRisk'', [''x0'', ''r'', ''K'', ''risk'', ''betaF'', ''gammaV'']),
      (''PredatorResponse'', [''y0'', ''conv'', ''mort'']),
      (''Movement'', [''dispersal'']),
      (''Aggregator'', [''ext_thresh'']),
      (''Price'', [''start'', ''drift'', ''noise'', ''out_key'']),
      (''Policy'', [''alpha'', ''x_key''])]"

definition pathOf :: "nat \<Rightarrow> nat \<Rightarrow> string" where
  "pathOf layerIndex streamIndex =
     ''layers['' @ showNat layerIndex @ ''][''  @ showNat streamIndex @ '']''"

definition strs :: "string list \<Rightarrow> jsval" where
  "strs hs = JArr (map JStr hs)"

definition withPath :: "string \<Rightarrow> jsval" where
  "withPath p = JObj [(''path'', JStr p)]"

definition apostrophe :: string where
  "apostrophe = [CHR 0x27]"

text \<open>
  The loop \<^verbatim>\<open>defs.forEach\<close> over the definitions of a stream's type: the first
  definition tested against a \<^verbatim>\<open>params\<close> that is not an object throws.
\<close>

fun checkParams :: "string \<Rightarrow> jsval \<Rightarrow> string list \<Rightarrow> thrown + jsval list" where
  "checkParams path ps [] = Inr []"
| "checkParams path ps (k # ks) =
     (case hasProperty k ps of
        None \<Rightarrow>
          Inl (ThrownError ''TypeError''
                 (''Cannot use '' @ apostrophe @ ''in'' @ apostrophe @ '' operator to search for ''
                  @ apostrophe @ k @ apostrophe @ '' in '' @ ToString ps))
      | Some found \<Rightarrow>
          (case checkParams path ps ks of
             Inl e \<Rightarrow> Inl e
           | Inr errs \<Rightarrow>
               Inr ((if found then []
                     else [createError (JStr PARAM_MISSING)
                             (JStr (''Required parameter '' @ apostrophe @ k @ apostrophe @ '' is missing.''))
                             (strs [''Open the stream editor and save defaults.''])
                             (withPath (path @ ''.params.'' @ k))]) @ errs)))"

text \<open>
  The body of the inner \<^verbatim>\<open>layer.forEach\<close> for one stream. The table lookup
  converts \<^verbatim>\<open>stream.type\<close> to a property key; for a name inherited from
  \<^verbatim>\<open>Object.prototype\<close> it yields a member that is truthy and has no
  \<^verbatim>\<open>forEach\<close>, and the call throws.
\<close>

definition validateStream :: "stream_defs \<Rightarrow> nat \<Rightarrow> nat \<Rightarrow> jsval \<Rightarrow> thrown + jsval list" where
  "validateStream streamDefs layerIndex streamIndex stream =
     (if \<not> truthy stream \<or> \<not> typeofObject stream then
        Inr [createError (JStr STREAM_INVALID) (JStr ''Stream object is invalid.'')
               (strs [''Reset the stream configuration.''])
               (withPath (pathOf layerIndex streamIndex))]
      else
        let typeErrors =
              (if \<not> truthy (get stream ''type'') \<or> \<not> isString (get stream ''type'')
               then [createError (JStr TYPE_MISSING) (JStr ''Stream type is missing.'')
                       (strs [''Select a stream type.''])
                       (withPath (pathOf layerIndex streamIndex @ ''.type''))]
               else []);
            typeKey = ToString (get stream ''type'');
            ps = orElse (get stream ''params'') (JObj [])
        in case map_of streamDefs typeKey of
             Some defs \<Rightarrow>
               (case checkParams (pathOf layerIndex streamIndex) ps defs of
                  Inl e \<Rightarrow> Inl e
                | Inr errs \<Rightarrow> Inr (typeErrors @ errs))
           | None \<Rightarrow>
               if typeKey \<in> set objectPrototypeKeys
               then Inl (ThrownError ''TypeError'' ''defs.forEach is not a function'')
               else Inr typeErrors)"

text \<open>
  \<^verbatim>\<open>forEach\<close> over an array with the index, stopping at the first callback that
  throws; the errors pushed before the throw are lost with the array.
\<close>

fun forEachIndexed :: "(nat \<Rightarrow> 'a \<Rightarrow> thrown + jsval list) \<Rightarrow> nat \<Rightarrow> 'a list \<Rightarrow> thrown + jsval list" where
  "forEachIndexed f i [] = Inr []"
| "forEachIndexed f i (x # xs) =
     (case f i x of
        Inl e \<Rightarrow> Inl e
      | Inr errs \<Rightarrow>
          (case forEachIndexed f (Suc i) xs of
             Inl e \<Rightarrow> Inl e
           | Inr rest \<Rightarrow> Inr (errs @ rest)))"

definition validateLayer :: "stream_defs \<Rightarrow> nat \<Rightarrow> jsval \<Rightarrow> thrown + jsval list" where
  "validateLayer streamDefs layerIndex layer =
     (case layer of
        JArr (s # ss) \<Rightarrow> forEachIndexed (validateStream streamDefs layerIndex) 0 (s # ss)
      | _ \<Rightarrow>
          Inr [createError (JStr LAYER_EMPTY) (JStr ''Layer has no streams.'')
                 (strs [''Add at least one stream per layer.''])
                 (withPath (''layers['' @ showNat layerIndex @ '']''))])"

definition controlErrors :: "controls \<Rightarrow> run_limits \<Rightarrow> jsval list" where
  "controlErrors c runLimits =
     (if \<not> isFinite (steps c) \<or> numLess (steps c) (Fin 1)
      then [createError (JStr STEPS_INVALID) (JStr ''Steps must be a positive number.'')
              (strs [''Set steps >= 1.'']) (withPath ''controls.steps'')]
      else []) @
     (if numLess (numOfNat (maxSteps runLimits)) (steps c)
      then [createError (JStr STEPS_LIMIT)
              (JStr (''Steps exceeds limit ('' @ showNat (maxSteps runLimits) @ '').''))
              (strs [''Lower steps or split runs.'']) (withPath ''controls.steps'')]
      else []) @
     (if \<not> isFinite (episodes c) \<or> numLess (episodes c) (Fin 1)
      then [createError (JStr EPISODES_INVALID) (JStr ''Episodes must be a positive number.'')
              (strs [''Set episodes >= 1.'']) (withPath ''controls.episodes'')]
      else []) @
     (if numLess (numOfNat (maxEpisodes runLimits)) (episodes c)
      then [createError (JStr EPISODES_LIMIT)
              (JStr (''Episodes exceeds limit ('' @ showNat (maxEpisodes runLimits) @ '').''))
              (strs [''Lower episodes or run multiple batches.''])
              (withPath ''controls.episodes'')]
      else []) @
     (if \<not> isFinite (seed c)
      then [createError (JStr CFG_INVALID) (JStr ''Seed must be numeric.'')
              (strs [''Set a numeric seed value.'']) (withPath ''controls.seed'')]
      else [])"

definition validateConfigPayload :: "jsval \<Rightarrow> stream_defs \<Rightarrow> run_limits \<Rightarrow> thrown + jsval list" where
  "validateConfigPayload config streamDefs runLimits =
     (if \<not> truthy config \<or> \<not> typeofObject config then
        Inr [createError (JStr CFG_INVALID) (JStr ''Config is missing or invalid.'')
               (strs [''Import a valid bundle or reset defaults.'']) (withPath ''config'')]
      else
        let errors = controlErrors (readControls config) runLimits in
        case get config ''layers'' of
          JArr (l # ls) \<Rightarrow>
            (case forEachIndexed (validateLayer streamDefs) 0 (l # ls) of
               Inl e \<Rightarrow> Inl e
             | Inr rest \<Rightarrow> Inr (errors @ rest))
        | _ \<Rightarrow>
            Inr (errors @
                 [createError (JStr LAYERS_INVALID) (JStr ''At least one layer is required.'')
                    (strs [''Add a layer before running.'']) (withPath ''layers'')]))"

definition validateRunResultShape :: "jsval \<Rightarrow> bool" where
  "validateRunResultShape result =
     (if \<not> truthy result \<or> \<not> typeofObject result then False
      else case get result ''episodes'' of
             JArr eps \<Rightarrow>
               list_all (\<lambda>ep. truthy ep \<and> typeofObject ep \<and> isArray (get ep ''per_step'')
                              \<and> truthy (get ep ''episode'') \<and> typeofObject (get ep ''episode'')) eps
           | _ \<Rightarrow> False)"

section \<open>The execution dispatcher\<close>

text \<open>
  The state of a \<^verbatim>\<open>PlaygroundRuntime\<close>: whether it holds a worker, the request
  counter, the keys of the pending table in insertion order, the ready flag and the
  engine version. The
  \<^verbatim>\<open>resolve\<close> and \<^verbatim>\<open>reject\<close> callbacks stored in the table are
  identified by the request's key: calling one is recorded as the settlement of that key.
\<close>

record runtime =
  worker :: bool
  requestSeq :: nat
  pending :: "string list"
  ready :: bool
  engineVersion :: jsval

text \<open>
  How an awaited request ends: resolved with \<^verbatim>\<open>{type, payload}\<close>, or rejected
  with a thrown value.
\<close>

datatype settlement = Resolved jsval jsval | Rejected thrown

definition ensureWorker :: "runtime \<Rightarrow> runtime" where
  "ensureWorker rt = (if worker rt then rt else rt\<lparr> worker := True \<rparr>)"

definition request :: "runtime \<Rightarrow> runtime \<times> string" where
  "request rt =
     (let rt1 = ensureWorker rt;
          seq = Suc (requestSeq rt1);
          requestId = ''r'' @ showNat seq
      in (rt1\<lparr> requestSeq := seq, pending := pending rt1 @ [requestId] \<rparr>, requestId))"

text \<open>
  The worker's \<^verbatim>\<open>onmessage\<close> handler on \<^verbatim>\<open>event.data\<close>: a message whose
  \<^verbatim>\<open>requestId\<close> is not a pending key is dropped; otherwise the entry is deleted
  and settled.
\<close>

definition onmessage :: "runtime \<Rightarrow> jsval \<Rightarrow> runtime \<times> (string \<times> settlement) list" where
  "onmessage rt eventData =
     (let d = orElse eventData (JObj []);
          ty = get d ''type'';
          payload = get d ''payload''
      in case get d ''requestId'' of
           JStr requestId \<Rightarrow>
             if requestId \<in> set (pending rt) then
               (rt\<lparr> pending := removeAll requestId (pending rt) \<rparr>,
                [(requestId,
                  if ty = JStr ''error''
                  then Rejected (ThrownValue
                         (createError (JStr FAILED)
                            (orElse (if isNullish payload then JUndefined else get payload ''message'')
                               (JStr ''Runtime worker failed.''))
                            JUndefined JUndefined))
                  else Resolved ty payload)])
             else (rt, [])
         | _ \<Rightarrow> (rt, []))"

definition onerror :: "runtime \<Rightarrow> jsval \<Rightarrow> runtime \<times> (string \<times> settlement) list" where
  "onerror rt eventMessage =
     (let err = createError (JStr FAILED) (JStr ''Runtime worker crashed.'')
                  (strs [''Reload the page and retry.'']) (JObj [(''message'', eventMessage)])
      in (rt\<lparr> pending := [], worker := False, ready := False \<rparr>,
          map (\<lambda>requestId. (requestId, Rejected (ThrownValue err))) (pending rt)))"

definition terminationError :: jsval where
  "terminationError =
     createError (JStr CANCELLED) (JStr ''Run cancelled by user.'') JUndefined JUndefined"

definition terminate :: "runtime \<Rightarrow> runtime \<times> (string \<times> settlement) list" where
  "terminate rt =
     (rt\<lparr> worker := False, pending := [], ready := False \<rparr>,
      map (\<lambda>requestId. (requestId, Rejected (ThrownValue terminationError))) (pending rt))"

text \<open>
  \<^verbatim>\<open>init\<close> and \<^verbatim>\<open>run\<close> after their \<^verbatim>\<open>await\<close>: the
  \<^verbatim>\<open>try\<close> block on the settlement of the request, then the \<^verbatim>\<open>catch\<close>
  that normalizes whatever was thrown.
\<close>

definition init :: "runtime \<Rightarrow> settlement \<Rightarrow> runtime \<times> (jsval + jsval)" where
  "init rt s =
     (let body =
        (case s of
           Rejected e \<Rightarrow> Inl e
         | Resolved ty payload \<Rightarrow>
             if ty \<noteq> JStr ''init_ok''
             then Inl (ThrownValue (createError (JStr LOAD_FAILED)
                         (JStr ''Runtime failed to initialize.'') JUndefined JUndefined))
             else Inr payload)
      in case body of
           Inr payload \<Rightarrow>
             (rt\<lparr> ready := True,
                 engineVersion :=
                   orElse (if isNullish payload then JUndefined else get payload ''version'')
                     (JStr ''unknown'') \<rparr>,
              Inr payload)
         | Inl e \<Rightarrow>
             (rt\<lparr> ready := False \<rparr>,
              Inl (normalizeError e (JStr LOAD_FAILED) (JStr ''Failed to load Pyodide runtime.'')
                     (strs [''Check network/CDN access.'', ''Refresh and retry.'']))))"

definition run :: "settlement \<Rightarrow> jsval + jsval" where
  "run s =
     (let body =
        (case s of
           Rejected e \<Rightarrow> Inl e
         | Resolved ty payload \<Rightarrow>
             if ty \<noteq> JStr ''run_ok''
             then Inl (ThrownValue (createError (JStr FAILED)
                         (JStr ''Runtime returned an unexpected message type.'')
                         JUndefined JUndefined))
             else if \<not> validateRunResultShape payload
             then Inl (ThrownValue (createError (JStr BAD_RESULT_SHAPE)
                         (JStr ''Runtime returned an invalid result shape.'')
                         (strs [''Check simulation payload and stream configuration.''])
                         JUndefined))
             else Inr payload)
      in case body of
           Inr payload \<Rightarrow> Inr payload
         | Inl e \<Rightarrow>
             Inl (normalizeError e (JStr FAILED) (JStr ''Simulation failed.'')
                    (strs [''Check stream parameters and scenario settings.''])))"

text \<open>
  What can end the request that \<^verbatim>\<open>run\<close> awaits: a message of the worker carrying
  the request's key, the worker's \<^verbatim>\<open>error\<close> event, a call of
  \<^verbatim>\<open>terminate\<close>, or an exception of the browser while the request is posted.
\<close>

datatype worker_event =
    WorkerMessage jsval
  | WorkerCrash jsval
  | Terminate
  | PostFailed string string

text \<open>
  \<^verbatim>\<open>run\<close> from the call to the result: the request is registered, the event is
  handled, and the settlement of the request, if the event gave one, goes through the body
  of \<^verbatim>\<open>run\<close>. An event that leaves the request pending gives \<open>None\<close>.
\<close>

definition settlementOf :: "runtime \<Rightarrow> worker_event \<Rightarrow> runtime \<times> settlement option" where
  "settlementOf rt ev =
     (let (rt1, requestId) = request rt in
      case ev of
        PostFailed name msg \<Rightarrow> (rt1, Some (Rejected (ThrownError name msg)))
      | WorkerMessage d \<Rightarrow>
          (let (rt2, settled) = onmessage rt1 d in (rt2, map_of settled requestId))
      | WorkerCrash m \<Rightarrow>
          (let (rt2, settled) = onerror rt1 m in (rt2, map_of settled requestId))
      | Terminate \<Rightarrow>
          (let (rt2, settled) = terminate rt1 in (rt2, map_of settled requestId)))"

definition runOn :: "runtime \<Rightarrow> worker_event \<Rightarrow> (jsval + jsval) option" where
  "runOn rt ev = map_option run (snd (settlementOf rt ev))"

section \<open>The run orchestrator\<close>

text \<open>\<^verbatim>\<open>compound.split("::")\<close>: the pieces between the occurrences of the separator.\<close>

fun splitColons :: "string \<Rightarrow> string \<Rightarrow> string list" where
  "splitColons acc [] = [rev acc]"
| "splitColons acc [c] = [rev (c # acc)]"
| "splitColons acc (c # d # cs) =
     (if c = CHR '':'' \<and> d = CHR '':'' then rev acc # splitColons [] cs
      else splitColons (c # acc) (d # cs))"

text \<open>
  The override map of one scenario (lines 1604 to 1609): each compound key is split, its
  first piece names the component and its second the parameter; a missing second piece
  is \<^verbatim>\<open>undefined\<close>, which as a property key is the string of that name. The
  objects are read by their own properties.
\<close>

definition overrideMapOf :: "(string \<times> string) list \<Rightarrow> (string \<times> (string \<times> string) list) list" where
  "overrideMapOf ovs =
     fold (\<lambda>(compound, v) overrideMap.
             let parts = splitColons [] compound;
                 cid = (case parts of [] \<Rightarrow> ''undefined'' | p # _ \<Rightarrow> p);
                 k = (case parts of _ # q # _ \<Rightarrow> q | _ \<Rightarrow> ''undefined'');
                 inner = (case map_of overrideMap cid of Some m \<Rightarrow> m | None \<Rightarrow> [])
             in AList.update cid (AList.update k v inner) overrideMap)
          ovs []"

definition assertRunPayloadBridge :: "jsval \<Rightarrow> thrown + unit" where
  "assertRunPayloadBridge payload =
     (if \<not> truthy payload \<or> \<not> typeofObject payload
      then Inl (ThrownValue (createError (JStr FAILED) (JStr ''Runtime payload is invalid.'')
                  JUndefined JUndefined))
      else case get payload ''layers'' of
             JArr (l # ls) \<Rightarrow> Inr ()
           | _ \<Rightarrow>
               Inl (ThrownValue (createError (JStr LAYERS_INVALID)
                      (JStr ''Runtime payload requires at least one layer.'')
                      JUndefined JUndefined)))"

text \<open>
  What a run takes from outside the orchestrator. The flag \<^verbatim>\<open>cancelRequested\<close> is
  set by the cancel button's handler while the orchestrator awaits, and the clock moves:
  the environment gives the flag and \<^verbatim>\<open>Date.now()\<close> as read at the top of
  iteration \<open>i\<close>, and how the request of iteration \<open>i\<close> settles.
  \<^verbatim>\<open>buildPayloadWithOverrides\<close> ends in \<^verbatim>\<open>buildRunPayload\<close> of
  \<^verbatim>\<open>schemas.js\<close>, which is not among the sources: the payload built for an
  override map, or what building it throws, is taken from the environment as well, as are
  the configuration hash, the start time and the versions the artifact records.
\<close>

record run_env =
  cancelRequestedAt :: "nat \<Rightarrow> bool"
  nowAt :: "nat \<Rightarrow> int"
  runStartMs :: int
  nowAfterLoop :: int
  buildPayloadWithOverrides :: "(string \<times> (string \<times> string) list) list \<Rightarrow> thrown + jsval"
  settleAt :: "nat \<Rightarrow> jsval \<Rightarrow> settlement"
  memoryWarning :: "string option"
  configHash :: string
  runStartedAtISO :: string
  pyodideVersion :: jsval
  runtimeEngineVersion :: jsval

text \<open>
  The click handler of the cancel button, on the globals \<^verbatim>\<open>isRunning\<close> and
  \<^verbatim>\<open>cancelRequested\<close> and the dispatcher: outside a run it does nothing, during
  a run it sets the flag and terminates the dispatcher.
\<close>

definition cancelClick :: "bool \<Rightarrow> bool \<Rightarrow> runtime
    \<Rightarrow> bool \<times> runtime \<times> (string \<times> settlement) list" where
  "cancelClick isRunning cancelRequested rt =
     (if \<not> isRunning then (cancelRequested, rt, [])
      else (True, fst (terminate rt), snd (terminate rt)))"

text \<open>
  Lines 1602 to 1612 for one scenario: the payload is built and checked, and the
  dispatcher's \<^verbatim>\<open>run\<close> is awaited. The flag says whether the dispatcher was
  called.
\<close>

definition dispatchScenario :: "run_env \<Rightarrow> nat \<Rightarrow> scenario \<Rightarrow> bool \<times> (thrown + jsval)" where
  "dispatchScenario env i sc =
     (case buildPayloadWithOverrides env (overrideMapOf (overrides sc)) of
        Inl e \<Rightarrow> (False, Inl e)
      | Inr payload \<Rightarrow>
          (case assertRunPayloadBridge payload of
             Inl e \<Rightarrow> (False, Inl e)
           | Inr u \<Rightarrow>
               (True,
                case run (settleAt env i payload) of
                  Inl err \<Rightarrow> Inl (ThrownValue err)
                | Inr result \<Rightarrow> Inr result)))"

definition cancelledError :: jsval where
  "cancelledError =
     createError (JStr CANCELLED) (JStr ''Run cancelled by user.'')
       (strs [''You can replay or adjust settings before running again.'']) JUndefined"

definition limitExceededError :: "run_limits \<Rightarrow> jsval" where
  "limitExceededError limits =
     createError (JStr LIMIT_EXCEEDED)
       (JStr (''Run exceeded '' @ showNat (maxRunMs limits) @ ''ms limit.''))
       (strs [''Reduce steps/episodes/scenarios.'', ''Run fewer condition combinations.''])
       JUndefined"

text \<open>
  The \<^verbatim>\<open>for\<close> loop of lines 1587 to 1614 from iteration \<open>i\<close> on, over the scenarios
  not yet visited. It returns the scenarios for which the dispatcher was called, in order,
  and either what the loop threw or the \<^verbatim>\<open>{label, result}\<close> pairs it pushed.
\<close>

fun dispatchLoop :: "run_limits \<Rightarrow> run_env \<Rightarrow> nat \<Rightarrow> scenario list
    \<Rightarrow> scenario list \<times> (thrown + (string \<times> jsval) list)" where
  "dispatchLoop limits env i [] = ([], Inr [])"
| "dispatchLoop limits env i (sc # scs) =
     (if cancelRequestedAt env i then ([], Inl (ThrownValue cancelledError))
      else if nowAt env i - runStartMs env > int (maxRunMs limits)
      then ([], Inl (ThrownValue (limitExceededError limits)))
      else case dispatchScenario env i sc of
             (called, Inl e) \<Rightarrow> (if called then [sc] else [], Inl e)
           | (called, Inr result) \<Rightarrow>
               (case dispatchLoop limits env (Suc i) scs of
                  (dispatched, Inl e) \<Rightarrow> (sc # dispatched, Inl e)
                | (dispatched, Inr results) \<Rightarrow>
                    (sc # dispatched, Inr ((label sc, result) # results))))"

text \<open>
  The arguments \<^verbatim>\<open>runSimulation\<close> passes to \<^verbatim>\<open>buildRunResultV2\<close>.
\<close>

record run_artifact =
  art_runId :: string
  art_configHash :: string
  art_engineVersion :: jsval
  art_limitsApplied :: run_limits
  art_episodes :: jsval
  art_warnings :: "string list"
  art_errors :: "jsval list"

text \<open>
  Modelled from the spec: \<^verbatim>\<open>buildRunResultV2\<close> of \<^verbatim>\<open>schemas.js\<close> is not
  among the sources. By the spec the run artifact carries the run identifier, the
  configuration hash, the engine version, the limits applied, the episodes, the warnings
  and the errors; the artifact is kept as the record of the arguments it is built from.
\<close>

definition buildRunResultV2 :: "run_artifact \<Rightarrow> run_artifact" where
  "buildRunResultV2 args = args"

definition isDecimalDigit :: "char \<Rightarrow> bool" where
  "isDecimalDigit c = (c \<in> set ''0123456789'')"

text \<open>The run identifier: the first 14 digits of the start time, a dash, the last 8
  characters of the hash.\<close>

definition runIdOf :: "string \<Rightarrow> string \<Rightarrow> string" where
  "runIdOf isoText hash =
     take 14 (filter isDecimalDigit isoText) @ ''-'' @ drop (length hash - 8) hash"

definition truncationNotice :: "run_limits \<Rightarrow> string" where
  "truncationNotice limits = ''Scenario count capped at '' @ showNat (maxScenarios limits) @ ''.''"

text \<open>
  How a call of \<^verbatim>\<open>runSimulation\<close> ends. The function shows its result on the page;
  the outcome records which exit was taken and with what.
\<close>

datatype outcome =
    AlreadyRunning
  | RuntimeNotReady
  | ValidationThrew thrown
  | ValidationFailed "jsval list"
  | NoScenarios
  | NoOutput
  | RunFailed jsval
  | Done run_artifact

text \<open>
  \<^verbatim>\<open>runSimulation\<close>. The globals \<^verbatim>\<open>isRunning\<close> and
  \<^verbatim>\<open>pyodideReady\<close> are arguments, as are the table \<^verbatim>\<open>STREAM_DEFS\<close>, the
  limits \<^verbatim>\<open>RUN_LIMITS\<close>, the configuration \<^verbatim>\<open>getConfigPayloadV2()\<close>
  returns (its builder \<^verbatim>\<open>buildConfigV2\<close> is in \<^verbatim>\<open>schemas.js\<close>) and the
  components of the state. The result pairs the outcome with the scenarios dispatched.
\<close>

definition runSimulation :: "bool \<Rightarrow> bool \<Rightarrow> stream_defs \<Rightarrow> run_limits \<Rightarrow> jsval
    \<Rightarrow> component list \<Rightarrow> run_env \<Rightarrow> outcome \<times> scenario list" where
  "runSimulation isRunning pyodideReady streamDefs limits configV2 components env =
     (if isRunning then (AlreadyRunning, [])
      else if \<not> pyodideReady then (RuntimeNotReady, [])
      else case validateConfigPayload configV2 streamDefs limits of
        Inl e \<Rightarrow> (ValidationThrew e, [])
      | Inr validationErrors \<Rightarrow>
          if validationErrors \<noteq> [] then (ValidationFailed validationErrors, [])
          else
            let allScenarios = buildScenarioList components in
            if allScenarios = [] then (NoScenarios, [])
            else
              let scenarios = take (maxScenarios limits) allScenarios;
                  truncated = (length allScenarios > length scenarios);
                  warnings = (case memoryWarning env of Some w \<Rightarrow> [w] | None \<Rightarrow> [])
              in case dispatchLoop limits env 0 scenarios of
                   (dispatched, Inl err) \<Rightarrow>
                     (RunFailed (normalizeError err (JStr FAILED) (JStr ''Simulation failed.'')
                        (strs [''Check stream parameters and scenario settings.'',
                               ''Reduce run size if your browser is resource constrained.''])),
                      dispatched)
                 | (dispatched, Inr []) \<Rightarrow> (NoOutput, dispatched)
                 | (dispatched, Inr ((firstLabel, firstResult) # results)) \<Rightarrow>
                     (Done (buildRunResultV2
                        \<lparr> art_runId = runIdOf (runStartedAtISO env) (configHash env),
                          art_configHash = configHash env,
                          art_engineVersion =
                            orElse (pyodideVersion env)
                              (orElse (runtimeEngineVersion env) (JStr ''pyodide-unknown'')),
                          art_limitsApplied = limits,
                          art_episodes = orElse (get firstResult ''episodes'') (JArr []),
                          art_warnings =
                            (if truncated then [truncationNotice limits] else []) @ warnings,
                          art_errors =
                            (if nowAfterLoop env - runStartMs env > int (maxRunMs limits)
                             then [createError (JStr LIMIT_EXCEEDED)
                                     (JStr ''Runtime limit exceeded.'') JUndefined JUndefined]
                             else []) \<rparr>),
                      dispatched))"

section \<open>Configuration migration\<close>

definition PLAYGROUND_CONFIG_V1 :: string where
  "PLAYGROUND_CONFIG_V1 = ''PlaygroundConfigV1''"

definition PLAYGROUND_CONFIG_VERSION :: string where
  "PLAYGROUND_CONFIG_VERSION = ''PlaygroundConfigV2''"

text \<open>
  Modelled from the spec: \<^verbatim>\<open>migrateIncomingConfig\<close> lives in
  \<^verbatim>\<open>schemas.js\<close>, which is not among the sources (only its test and its callers
  are). By the spec, migration accepts any known prior version and maps the old shape
  onto the current one (flat \<^verbatim>\<open>steps\<close>, \<^verbatim>\<open>episodes\<close>, \<^verbatim>\<open>seed\<close>
  become the nested \<^verbatim>\<open>controls\<close>), returns an already-current document
  unchanged, and fails with a \<^verbatim>\<open>compat.unknown_config_version\<close> error for any
  other version. The version tags are those of \<^verbatim>\<open>state.js\<close> and of the test.
\<close>

definition migrateIncomingConfig :: "jsval \<Rightarrow> jsval + jsval" where
  "migrateIncomingConfig raw =
     (if get raw ''version'' = JStr PLAYGROUND_CONFIG_VERSION then Inr raw
      else if get raw ''version'' = JStr PLAYGROUND_CONFIG_V1 then
        Inr (JObj [(''version'', JStr PLAYGROUND_CONFIG_VERSION),
                   (''controls'', JObj [(''steps'', get raw ''steps''),
                                        (''episodes'', get raw ''episodes''),
                                        (''seed'', get raw ''seed'')]),
                   (''layers'', get raw ''layers'')])
      else Inl (createError (JStr UNKNOWN_CONFIG_VERSION)
                  (JStr ''Unknown config version.'') JUndefined JUndefined))"

section \<open>Notions of the specification\<close>

text \<open>
  A condition axis, read off the state: a metadata entry of type \<^verbatim>\<open>category\<close>
  whose kind, \<^verbatim>\<open>condition\<close> when none is given, is \<^verbatim>\<open>condition\<close>. Its
  options are the normalized labels, with the parameter's current value as fallback. The
  axes are listed in component order, then in the key order of the component's metadata.
\<close>

definition isConditionAxis :: "jsval \<Rightarrow> bool" where
  "isConditionAxis info =
     (get info ''type'' = JStr ''category''
      \<and> orElse (get info ''kind'') (JStr ''condition'') = JStr ''condition'')"

definition conditionAxes :: "component list \<Rightarrow> category list" where
  "conditionAxes components =
     concat (map (\<lambda>c. map (\<lambda>(k, info).
                          \<lparr> componentId = comp_id c, key = k,
                            options = normalizedOptions info (get (JObj (params c)) k) \<rparr>)
                       (filter (\<lambda>(k, info). isConditionAxis info) (paramMeta c)))
                 components)"

definition enumeratedAxes :: "component list \<Rightarrow> category list" where
  "enumeratedAxes components = filter (\<lambda>a. options a \<noteq> []) (conditionAxes components)"

text \<open>
  The label of the scenario that picks \<open>choice\<close>, one option per axis: the fragments
  \<^verbatim>\<open>componentId.key=option\<close> in axis order, joined by a comma and a space. The
  scenarios of a list of axes are expected in the order of the Cartesian product, the
  last axis varying fastest.
\<close>

definition expectedLabel :: "category list \<Rightarrow> string list \<Rightarrow> string" where
  "expectedLabel axes choice = join '', '' (map2 labelPart axes choice)"

definition expectedLabels :: "category list \<Rightarrow> string list" where
  "expectedLabels axes =
     (if axes = [] then [''Base'']
      else map (expectedLabel axes) (product_lists (map options axes)))"

text \<open>
  The expected result shape in the words of the dispatcher's contract: an object with an
  array \<^verbatim>\<open>episodes\<close>, each episode an object with an array \<^verbatim>\<open>per_step\<close> and
  an object \<^verbatim>\<open>episode\<close>. Object is meant as JavaScript means it: a value that is
  not a primitive, so an array is one.
\<close>

definition isObject :: "jsval \<Rightarrow> bool" where
  "isObject v = (case v of JObj kvs \<Rightarrow> True | JArr xs \<Rightarrow> True | _ \<Rightarrow> False)"

definition expectedResultShape :: "jsval \<Rightarrow> bool" where
  "expectedResultShape result =
     (isObject result \<and>
      (case get result ''episodes'' of
         JArr eps \<Rightarrow>
           list_all (\<lambda>ep. isObject ep \<and> isArray (get ep ''per_step'') \<and> isObject (get ep ''episode''))
             eps
       | _ \<Rightarrow> False))"

definition codeOf :: "jsval \<Rightarrow> jsval" where
  "codeOf e = get e ''code''"


text \<open>
  The mapped values under which the label \<^verbatim>\<open>__proto__\<close> can become an entry of
  the normalized map: \<^verbatim>\<open>null\<close>, and an object that owns a property
  \<^verbatim>\<open>__proto__\<close> itself.
\<close>

definition shadowsProtoSetter :: "jsval \<Rightarrow> bool" where
  "shadowsProtoSetter v =
     (case v of
        JNull \<Rightarrow> True
      | JObj kvs \<Rightarrow> map_of kvs ''__proto__'' \<noteq> None
      | _ \<Rightarrow> False)"

text \<open>
  Iteration \<open>i\<close> of the dispatch loop gets past its two checks: the cancellation flag
  is clear and the elapsed time is within the limit.
\<close>

definition passes :: "run_limits \<Rightarrow> run_env \<Rightarrow> nat \<Rightarrow> bool" where
  "passes limits env i =
     (\<not> cancelRequestedAt env i \<and> nowAt env i - runStartMs env \<le> int (maxRunMs limits))"

text \<open>
  The iterations before \<open>i\<close> all got past their checks and had their scenario
  dispatched with a result.
\<close>

definition succeededBefore :: "run_limits \<Rightarrow> run_env \<Rightarrow> scenario list \<Rightarrow> nat \<Rightarrow> bool" where
  "succeededBefore limits env scenarios i =
     (\<forall>j<i. passes limits env j
             \<and> (\<exists>r. dispatchScenario env j (scenarios ! j) = (True, Inr r)))"

section \<open>Example inputs\<close>

text \<open>
  Components as the sample templates of the playground create them: the two streams of
  the first layer of sample 1, which carry one condition axis each, a stream with a
  rule axis, and the \<^verbatim>\<open>Price\<close> stream of the spec's end-to-end example, which has
  no metadata.
\<close>

definition categoryInfo :: "string \<Rightarrow> string list \<Rightarrow> (string \<times> jsval) list \<Rightarrow> jsval" where
  "categoryInfo kindName labels mapping =
     JObj [(''type'', JStr ''category''), (''kind'', JStr kindName),
           (''options'', JArr (map JStr labels)),
           (''value'', JStr (case labels of [] \<Rightarrow> [] | l # _ \<Rightarrow> l)),
           (''map'', JObj mapping)]"

definition climate :: component where
  "climate =
     \<lparr> comp_id = ''L1S1'',
       params = [(''amp'', JNum (Fin (2 / 5))), (''period'', JNum (Fin 12)),
                 (''shock_prob'', JNum (Fin (1 / 10)))],
       paramMeta =
         [(''amp'', categoryInfo ''condition''
             [''Seasonal Amplitude 0.4'', ''Seasonal Amplitude 0.8'']
             [(''Seasonal Amplitude 0.4'', JNum (Fin (2 / 5))),
              (''Seasonal Amplitude 0.8'', JNum (Fin (4 / 5)))])] \<rparr>"

definition landscape :: component where
  "landscape =
     \<lparr> comp_id = ''L1S2'',
       params = [(''n_patches'', JNum (Fin 12)), (''fragmentation'', JNum (Fin (1 / 5))),
                 (''move_cost'', JNum (Fin (1 / 5)))],
       paramMeta =
         [(''move_cost'', categoryInfo ''condition''
             [''Movement Cost 0.2'', ''Movement Cost 0.5'']
             [(''Movement Cost 0.2'', JNum (Fin (1 / 5))),
              (''Movement Cost 0.5'', JNum (Fin (1 / 2)))])] \<rparr>"

definition allianceRule :: component where
  "allianceRule =
     \<lparr> comp_id = ''L2S1'',
       params = [(''rule'', JStr ''Join'')],
       paramMeta =
         [(''rule'', categoryInfo ''rule'' [''Join'', ''Split'']
             [(''Join'', JNum (Fin 1)), (''Split'', JNum (Fin 0))])] \<rparr>"

definition priceStream :: component where
  "priceStream =
     \<lparr> comp_id = ''L1S1'',
       params = [(''start'', JNum (Fin 100)), (''drift'', JNum (Fin (3 / 100))),
                 (''noise'', JNum (Fin (1 / 20)))],
       paramMeta = [] \<rparr>"

text \<open>
  A custom stream whose category options were typed into the editor as
  \<^verbatim>\<open>A, A\<close>: \<^verbatim>\<open>collectParamsAndMeta\<close> splits at the comma, trims, drops
  empty pieces and keeps repetitions.
\<close>

definition repeatedOption :: component where
  "repeatedOption =
     \<lparr> comp_id = ''L1S1'',
       params = [(''mode'', JStr ''A'')],
       paramMeta =
         [(''mode'', categoryInfo ''condition'' [''A'', ''A'']
             [(''A'', JNum (Fin 1))])] \<rparr>"

text \<open>
  The configuration of a state with the two streams of sample 1 in one layer, the payload
  and the backend result of one scenario, and three environments: one in which nothing
  interferes, one whose clock has passed the limit when the third scenario is due, and one
  in which the cancellation flag is found set when the second scenario is due.
\<close>

definition streamOf :: "string \<Rightarrow> string \<Rightarrow> (string \<times> jsval) list \<Rightarrow> jsval" where
  "streamOf name ty ps =
     JObj [(''name'', JStr name), (''display_name'', JStr name), (''type'', JStr ty),
           (''params'', JObj ps), (''meta'', JObj []),
           (''agent'', JObj [(''enabled'', JBool False), (''capacity'', JNum (Fin 1))])]"

definition configOf :: "jsval list \<Rightarrow> jsval" where
  "configOf streams =
     JObj [(''version'', JStr ''PlaygroundConfigV2''),
           (''mode'', JStr ''sample1''),
           (''controls'', JObj [(''steps'', JNum (Fin 20)), (''episodes'', JNum (Fin 1)),
                              (''seed'', JNum (Fin 123))]),
           (''layers'', JArr [JArr streams]),
           (''notes'', JStr [])]"

definition climateParams :: "(string \<times> jsval) list" where
  "climateParams =
     [(''amp'', JNum (Fin (2 / 5))), (''period'', JNum (Fin 12)),
      (''shock_prob'', JNum (Fin (1 / 10)))]"

definition sample1Config :: jsval where
  "sample1Config =
     configOf [streamOf ''L1S1'' ''Climate'' climateParams,
               streamOf ''L1S2'' ''Landscape''
                 [(''n_patches'', JNum (Fin 12)), (''fragmentation'', JNum (Fin (1 / 5))),
                  (''move_cost'', JNum (Fin (1 / 5)))]]"

text \<open>Seven streams with one two-option condition axis each: 128 scenarios.\<close>

definition climateAt :: "nat \<Rightarrow> component" where
  "climateAt n = climate\<lparr> comp_id := ''L1S'' @ showNat n \<rparr>"

definition sevenStreams :: "component list" where
  "sevenStreams = map climateAt [1, 2, 3, 4, 5, 6, 7]"

definition sevenStreamsConfig :: jsval where
  "sevenStreamsConfig =
     configOf (map (\<lambda>n. streamOf (''L1S'' @ showNat n) ''Climate'' climateParams)
                [1, 2, 3, 4, 5, 6, 7])"

definition examplePayload :: jsval where
  "examplePayload =
     JObj [(''steps'', JNum (Fin 20)), (''episodes'', JNum (Fin 1)), (''seed'', JNum (Fin 123)),
           (''layers'', JArr [JArr [JObj [(''name'', JStr ''L1S1''), (''type'', JStr ''Climate''),
                                          (''params'', JObj climateParams)]]])]"

definition exampleResult :: jsval where
  "exampleResult =
     JObj [(''episodes'',
            JArr [JObj [(''seed'', JNum (Fin 123)),
                        (''per_step'', JArr [JObj [(''L1S1.value'', JNum (Fin (1 / 2)))]]),
                        (''episode'', JObj [(''L1S1.mean'', JNum (Fin (1 / 2)))])]])]"

definition quietEnv :: run_env where
  "quietEnv =
     \<lparr> cancelRequestedAt = (\<lambda>i. False),
       nowAt = (\<lambda>i. 1000 + int i),
       runStartMs = 1000,
       nowAfterLoop = 3000,
       buildPayloadWithOverrides = (\<lambda>overrideMap. Inr examplePayload),
       settleAt = (\<lambda>i payload. Resolved (JStr ''run_ok'') exampleResult),
       memoryWarning = None,
       configHash = ''sha256-00112233445566778899aabb'',
       runStartedAtISO = ''2026-02-13T10:20:30.456Z'',
       pyodideVersion = JStr ''0.26.4'',
       runtimeEngineVersion = JStr ''0.26.4'' \<rparr>"

definition lateEnv :: run_env where
  "lateEnv = quietEnv\<lparr> nowAt := (\<lambda>i. if i < 2 then 1000 + int i else 50000) \<rparr>"

definition cancelledEnv :: run_env where
  "cancelledEnv = quietEnv\<lparr> cancelRequestedAt := (\<lambda>i. 1 \<le> i) \<rparr>"

text \<open>
  An environment in which the dispatcher is terminated while the request of the second
  scenario is pending, and a dispatcher with two requests pending.
\<close>

definition terminatedEnv :: run_env where
  "terminatedEnv =
     quietEnv\<lparr> settleAt := (\<lambda>i payload. if i = 1 then Rejected (ThrownValue terminationError)
                                        else Resolved (JStr ''run_ok'') exampleResult) \<rparr>"

definition busyRuntime :: runtime where
  "busyRuntime =
     \<lparr> worker = True, requestSeq = 2, pending = [''r1'', ''r2''], ready = True,
       engineVersion = JStr ''0.26.4'' \<rparr>"

text \<open>
  A stream whose only condition axis declares no option and whose parameter has no
  current value: nothing is left to enumerate on the axis.
\<close>

definition emptyAxis :: component where
  "emptyAxis =
     \<lparr> comp_id = ''L1S1'',
       params = [],
       paramMeta = [(''mode'', categoryInfo ''condition'' [] [])] \<rparr>"


text \<open>
  Metadata whose first option label is \<^verbatim>\<open>__proto__\<close>, without a map; and
  metadata that repeats the label and whose map, as \<^verbatim>\<open>JSON.parse\<close> reads
  \<^verbatim>\<open>{"__proto__": null}\<close>, owns it with the value \<^verbatim>\<open>null\<close>.
\<close>

definition protoLabelled :: jsval where
  "protoLabelled = categoryInfo ''condition'' [''__proto__'', ''b''] []"


text \<open>
  A dispatcher with nothing pending, and two replies of the worker to its first request:
  one whose episode lacks the \<^verbatim>\<open>episode\<close> summary, one with the example result.
\<close>

definition idleRuntime :: runtime where
  "idleRuntime =
     \<lparr> worker = True, requestSeq = 0, pending = [], ready = True,
       engineVersion = JStr ''0.26.4'' \<rparr>"

definition badReply :: jsval where
  "badReply =
     JObj [(''type'', JStr ''run_ok''), (''requestId'', JStr ''r1''),
           (''payload'', JObj [(''episodes'', JArr [JObj [(''seed'', JNum (Fin 123)),
                                                       (''per_step'', JArr [])]])])]"

definition goodReply :: jsval where
  "goodReply =
     JObj [(''type'', JStr ''run_ok''), (''requestId'', JStr ''r1''),
           (''payload'', exampleResult)]"

text \<open>
  A configuration document whose stream carries a text where the parameter object
  belongs, with a step count over the limit and no episode to run.
\<close>

definition brokenParamsConfig :: jsval where
  "brokenParamsConfig =
     JObj [(''version'', JStr ''PlaygroundConfigV2''),
           (''controls'', JObj [(''steps'', JNum (Fin 9999)), (''episodes'', JNum (Fin 0)),
                              (''seed'', JNum (Fin 123))]),
           (''layers'', JArr [JArr [JObj [(''name'', JStr ''L1S1''), (''type'', JStr ''Climate''),
                                          (''params'', JStr ''default'')]]])]"

text \<open>The version 1 document of the migration test.\<close>

definition v1Document :: jsval where
  "v1Document =
     JObj [(''version'', JStr ''PlaygroundConfigV1''),
           (''steps'', JNum (Fin 12)), (''episodes'', JNum (Fin 3)), (''seed'', JNum (Fin 7)),
           (''layers'', JArr [JArr [JObj [(''name'', JStr ''L1''), (''type'', JStr ''Price''),
                                          (''params'', JObj [(''start'', JNum (Fin 100)),
                                                             (''drift'', JNum (Fin (1 / 50))),
                                                             (''noise'', JNum (Fin (1 / 100)))])]]])]"

section \<open>The enumerator: size, order, labels\<close>

lemma length_walk:
  "length (walk cats current labelParts) = prod_list (map (\<lambda>c. length (options c)) cats)"
proof (induction cats arbitrary: current labelParts)
  case Nil
  show ?case by simp
next
  case (Cons cat cats)
  show ?case
    by (simp add: length_concat comp_def Cons.IH sum_list_triv)
qed

lemma categoryOf_eq:
  "categoryOf c e =
     filter (\<lambda>a. options a \<noteq> [])
       (map (\<lambda>(k, info). \<lparr> componentId = comp_id c, key = k,
                            options = normalizedOptions info (get (JObj (params c)) k) \<rparr>)
            (filter (\<lambda>(k, info). isConditionAxis info) [e]))"
  by (cases e)
     (simp add: categoryOf_def isConditionAxis_def normalizeCategoryMeta_def orElse_def Let_def
           truthy_def)

lemma collectCategories_eq: "collectCategories components = enumeratedAxes components"
proof -
  have inner: "concat (map (categoryOf c) es) =
      filter (\<lambda>a. options a \<noteq> [])
        (map (\<lambda>(k, info). \<lparr> componentId = comp_id c, key = k,
                             options = normalizedOptions info (get (JObj (params c)) k) \<rparr>)
             (filter (\<lambda>(k, info). isConditionAxis info) es))" for c es
    by (induction es) (simp_all add: categoryOf_eq)
  show ?thesis
    unfolding collectCategories_def enumeratedAxes_def conditionAxes_def
    by (induction components) (simp_all add: inner)
qed

lemma enumeratedAxes_options_nonempty:
  "a \<in> set (enumeratedAxes components) \<Longrightarrow> options a \<noteq> []"
  by (simp add: enumeratedAxes_def)

lemma length_buildScenarioList:
  "length (buildScenarioList components) =
     prod_list (map (\<lambda>a. length (options a)) (enumeratedAxes components))"
  by (simp add: buildScenarioList_def Let_def length_walk collectCategories_eq)

lemma prod_list_pos:
  "(\<And>x. x \<in> set xs \<Longrightarrow> 0 < f x) \<Longrightarrow> 0 < prod_list (map f xs :: nat list)"
  by (induction xs) auto

lemma buildScenarioList_nonempty: "buildScenarioList components \<noteq> []"
proof -
  have "0 < prod_list (map (\<lambda>a. length (options a)) (enumeratedAxes components))"
    by (rule prod_list_pos) (simp add: enumeratedAxes_options_nonempty)
  then have "0 < length (buildScenarioList components)"
    by (simp add: length_buildScenarioList)
  then show ?thesis by auto
qed

lemma labels_walk:
  "map label (walk cats current labelParts) =
     map (\<lambda>choice. join '', '' (labelParts @ map2 labelPart cats choice))
         (product_lists (map options cats))"
proof (induction cats arbitrary: current labelParts)
  case Nil
  show ?case by simp
next
  case (Cons cat cats)
  show ?case
    by (simp add: map_concat comp_def Cons.IH)
qed

lemma labels_buildScenarioList:
  "map label (buildScenarioList components) = expectedLabels (enumeratedAxes components)"
  by (simp add: buildScenarioList_def Let_def collectCategories_eq expectedLabels_def
        expectedLabel_def labels_walk)

lemma walk_overrides_other:
  "s \<in> set (walk cats current labelParts) \<Longrightarrow> k \<notin> set (map compoundKey cats)
     \<Longrightarrow> map_of (overrides s) k = map_of current k"
proof (induction cats arbitrary: current labelParts)
  case Nil
  then show ?case by simp
next
  case (Cons cat cats)
  from Cons.prems obtain opt where
    s: "s \<in> set (walk cats (AList.update (compoundKey cat) opt current)
                     (labelParts @ [labelPart cat opt]))"
    by auto
  from Cons.prems have k: "k \<noteq> compoundKey cat" "k \<notin> set (map compoundKey cats)"
    by auto
  from Cons.IH [OF s k(2)] k(1) show ?case
    by (simp add: update_conv')
qed

text \<open>
  With pairwise distinct compound keys, the options a scenario assigns to the axes can be
  read back from its override map, and the scenarios run through the Cartesian product
  of the option lists in order.
\<close>

lemma walk_choices:
  "distinct (map compoundKey cats) \<Longrightarrow>
     map (\<lambda>s. map (\<lambda>c. map_of (overrides s) (compoundKey c)) cats) (walk cats current labelParts)
       = map (map Some) (product_lists (map options cats))"
proof (induction cats arbitrary: current labelParts)
  case Nil
  show ?case by simp
next
  case (Cons cat cats)
  from Cons.prems have fresh: "compoundKey cat \<notin> set (map compoundKey cats)"
    and dist: "distinct (map compoundKey cats)"
    by auto
  have branch:
    "map (\<lambda>s. map (\<lambda>c. map_of (overrides s) (compoundKey c)) (cat # cats))
         (walk cats (AList.update (compoundKey cat) opt current) lp)
       = map ((#) (Some opt)) (map (map Some) (product_lists (map options cats)))"
    for opt lp
  proof -
    have "map (\<lambda>s. map (\<lambda>c. map_of (overrides s) (compoundKey c)) (cat # cats))
              (walk cats (AList.update (compoundKey cat) opt current) lp)
            = map (\<lambda>s. Some opt # map (\<lambda>c. map_of (overrides s) (compoundKey c)) cats)
                  (walk cats (AList.update (compoundKey cat) opt current) lp)"
      by (rule map_cong) (simp_all add: walk_overrides_other [OF _ fresh] update_conv')
    also have "\<dots> = map ((#) (Some opt))
        (map (\<lambda>s. map (\<lambda>c. map_of (overrides s) (compoundKey c)) cats)
             (walk cats (AList.update (compoundKey cat) opt current) lp))"
      by simp
    finally show ?thesis
      by (simp only: Cons.IH [OF dist])
  qed
  have lhs:
    "map (\<lambda>s. map (\<lambda>c. map_of (overrides s) (compoundKey c)) (cat # cats))
         (walk (cat # cats) current labelParts)
       = concat (map (\<lambda>opt. map ((#) (Some opt)) (map (map Some) (product_lists (map options cats))))
                     (options cat))"
    by (simp add: map_concat comp_def branch del: list.map(2))
  have rhs:
    "map (map Some) (product_lists (map options (cat # cats)))
       = concat (map (\<lambda>opt. map ((#) (Some opt)) (map (map Some) (product_lists (map options cats))))
                     (options cat))"
    by (simp add: map_concat comp_def)
  show ?case
    by (simp only: lhs rhs)
qed

lemma distinct_map_factor:
  "distinct (map (\<lambda>x. f (g x)) xs) \<Longrightarrow> distinct (map g xs)"
  by (induction xs) auto

lemma distinct_overrides_walk:
  assumes "distinct (map compoundKey cats)" and "\<forall>c \<in> set cats. distinct (options c)"
  shows "distinct (map (\<lambda>s. map_of (overrides s)) (walk cats current labelParts))"
proof -
  have "distinct (product_lists (map options cats))"
    by (rule distinct_product_lists) (use assms(2) in auto)
  then have "distinct (map (map Some) (product_lists (map options cats)))"
    by (simp add: distinct_map inj_on_def)
  then have "distinct (map (\<lambda>s. map (\<lambda>c. map_of (overrides s) (compoundKey c)) cats)
                         (walk cats current labelParts))"
    by (simp only: walk_choices [OF assms(1)])
  then show ?thesis
    by (rule distinct_map_factor [where f = "\<lambda>m. map (\<lambda>c. m (compoundKey c)) cats"])
qed

lemma distinct_overrides_buildScenarioList:
  assumes "distinct (map compoundKey (enumeratedAxes components))"
    and "\<forall>a \<in> set (enumeratedAxes components). distinct (options a)"
  shows "distinct (map (\<lambda>s. map_of (overrides s)) (buildScenarioList components))"
  using assms
  by (simp add: buildScenarioList_def Let_def collectCategories_eq distinct_overrides_walk)

text \<open>
  The compound keys are pairwise distinct in every state whose component ids are pairwise
  distinct and free of colons and whose components have pairwise distinct metadata keys,
  as the ids \<^verbatim>\<open>L1S1\<close>, \<^verbatim>\<open>L1S2\<close>, ... of \<^verbatim>\<open>buildComponent\<close> are.
\<close>

lemma compound_inj:
  assumes "CHR '':'' \<notin> set a" and "CHR '':'' \<notin> set b"
    and "a @ ''::'' @ k = b @ ''::'' @ l"
  shows "a = b \<and> k = l"
proof -
  have "takeWhile (\<lambda>c. c \<noteq> CHR '':'') (a @ ''::'' @ k) = a"
    using assms(1) by (auto simp: takeWhile_tail)
  moreover have "takeWhile (\<lambda>c. c \<noteq> CHR '':'') (b @ ''::'' @ l) = b"
    using assms(2) by (auto simp: takeWhile_tail)
  ultimately have "a = b" using assms(3) by simp
  with assms(3) show ?thesis by simp
qed

lemma compoundKeys_distinct:
  assumes ids: "distinct (map comp_id components)"
    and colon: "\<forall>c \<in> set components. CHR '':'' \<notin> set (comp_id c)"
    and keys: "\<forall>c \<in> set components. distinct (map fst (paramMeta c))"
  shows "distinct (map compoundKey (enumeratedAxes components))"
proof -
  define ax where "ax = (\<lambda>c :: component. map (\<lambda>(k, info). \<lparr> componentId = comp_id c, key = k,
                 options = normalizedOptions info (get (JObj (params c)) k) \<rparr>)
               (filter (\<lambda>(k, info). isConditionAxis info) (paramMeta c)))"
  have own: "componentId a = comp_id c" if "a \<in> set (ax c)" for a c
    using that by (auto simp: ax_def)
  have one: "distinct (map compoundKey (ax c))" if "c \<in> set components" for c
  proof -
    have eq: "map compoundKey (ax c) =
        map (\<lambda>k. comp_id c @ ''::'' @ k)
          (map fst (filter (\<lambda>(k, info). isConditionAxis info) (paramMeta c)))"
      by (simp add: ax_def compoundKey_def comp_def case_prod_unfold)
    have "distinct (map fst (filter (\<lambda>(k, info). isConditionAxis info) (paramMeta c)))"
      using keys that by (intro distinct_map_filter) simp
    then have "distinct (map (\<lambda>k. comp_id c @ ''::'' @ k)
          (map fst (filter (\<lambda>(k, info). isConditionAxis info) (paramMeta c))))"
      by (subst distinct_map) (simp add: inj_on_def)
    then show ?thesis
      by (simp only: eq)
  qed
  have all: "distinct (map compoundKey (concat (map ax cs)))"
    if "set cs \<subseteq> set components" "distinct (map comp_id cs)" for cs
    using that
  proof (induction cs)
    case Nil
    show ?case by simp
  next
    case (Cons c cs)
    have disjoint: "compoundKey a \<noteq> compoundKey b"
      if a: "a \<in> set (ax c)" and b: "b \<in> set (concat (map ax cs))" for a b
    proof
      assume eq: "compoundKey a = compoundKey b"
      from b obtain c' where c': "c' \<in> set cs" "b \<in> set (ax c')"
        by auto
      from own [OF a] own [OF c'(2)] eq
      have "comp_id c @ ''::'' @ key a = comp_id c' @ ''::'' @ key b"
        by (simp add: compoundKey_def)
      moreover from Cons.prems c'(1) colon
      have "CHR '':'' \<notin> set (comp_id c)" "CHR '':'' \<notin> set (comp_id c')"
        by auto
      ultimately have "comp_id c = comp_id c'"
        using compound_inj by blast
      with Cons.prems(2) c'(1) show False
        by auto
    qed
    from Cons have rest: "distinct (map compoundKey (concat (map ax cs)))"
      by simp
    from Cons.prems have first: "distinct (map compoundKey (ax c))"
      by (intro one) simp
    from first rest disjoint show ?case
      by (auto simp: distinct_map inj_on_def)
  qed
  have "distinct (map compoundKey (conditionAxes components))"
    unfolding conditionAxes_def using all [of components] ids by (simp add: ax_def)
  then show ?thesis
    by (simp add: enumeratedAxes_def distinct_map_filter)
qed

subsection \<open>The example inputs, evaluated\<close>

lemma axes_sample1:
  "enumeratedAxes [climate, landscape] =
     [\<lparr> componentId = ''L1S1'', key = ''amp'',
        options = [''Seasonal Amplitude 0.4'', ''Seasonal Amplitude 0.8''] \<rparr>,
      \<lparr> componentId = ''L1S2'', key = ''move_cost'',
        options = [''Movement Cost 0.2'', ''Movement Cost 0.5''] \<rparr>]"
  by code_simp

lemma axes_repeatedOption:
  "enumeratedAxes [repeatedOption] =
     [\<lparr> componentId = ''L1S1'', key = ''mode'', options = [''A'', ''A''] \<rparr>]"
  by code_simp

lemma axes_rule_and_price: "conditionAxes [allianceRule, priceStream] = []"
  by code_simp

section \<open>Claims about the scenario enumerator\<close>

text \<open>
  C7. For every list of components with no condition axis (no metadata entry of type
  \<^verbatim>\<open>category\<close> whose kind is, or defaults to, \<^verbatim>\<open>condition\<close>), the
  enumerator returns exactly one scenario, labelled \<^verbatim>\<open>Base\<close>, with an empty
  override map.
\<close>

theorem base_scenario_without_condition_axes:
  "conditionAxes components = [] \<Longrightarrow>
     buildScenarioList components = [\<lparr> label = ''Base'', overrides = [] \<rparr>]"
  by (simp add: buildScenarioList_def Let_def collectCategories_eq enumeratedAxes_def)

theorem base_scenario_without_condition_axes_witness:
  "conditionAxes [allianceRule, priceStream] = []
   \<and> buildScenarioList [allianceRule, priceStream] = [\<lparr> label = ''Base'', overrides = [] \<rparr>]"
proof -
  have none: "conditionAxes [allianceRule, priceStream] = []"
    by (rule axes_rule_and_price)
  from none base_scenario_without_condition_axes [OF none] show ?thesis
    by blast
qed

text \<open>
  C1, as the code has it. The enumerated axes are the condition axes left with at least
  one normalized option (labels trimmed, empty labels dropped, the parameter's current
  value standing in for an empty list). The enumerator returns as many scenarios as the
  product of the option counts of the enumerated axes; their labels are, in order, the
  labels of the Cartesian product of the option lists: the enumerator only reads the
  state, and the sequence is a function of the components alone; and when the compound keys \<^verbatim>\<open>componentId::key\<close> of the
  axes are pairwise distinct and no axis repeats an option, each scenario's override map
  assigns to every axis the option chosen for it and the override maps are pairwise
  distinct.
\<close>

theorem scenario_enumeration:
  "length (buildScenarioList components) =
     prod_list (map (\<lambda>a. length (options a)) (enumeratedAxes components))
   \<and> map label (buildScenarioList components) = expectedLabels (enumeratedAxes components)
   \<and> (distinct (map compoundKey (enumeratedAxes components))
        \<and> (\<forall>a \<in> set (enumeratedAxes components). distinct (options a))
      \<longrightarrow> map (\<lambda>s. map (\<lambda>a. map_of (overrides s) (compoundKey a)) (enumeratedAxes components))
             (buildScenarioList components)
            = map (map Some) (product_lists (map options (enumeratedAxes components)))
          \<and> distinct (map (\<lambda>s. map_of (overrides s)) (buildScenarioList components)))"
proof (intro conjI impI)
  show "length (buildScenarioList components) =
      prod_list (map (\<lambda>a. length (options a)) (enumeratedAxes components))"
    by (rule length_buildScenarioList)
  show "map label (buildScenarioList components) = expectedLabels (enumeratedAxes components)"
    by (rule labels_buildScenarioList)
next
  assume h: "distinct (map compoundKey (enumeratedAxes components))
      \<and> (\<forall>a \<in> set (enumeratedAxes components). distinct (options a))"
  show "map (\<lambda>s. map (\<lambda>a. map_of (overrides s) (compoundKey a)) (enumeratedAxes components))
          (buildScenarioList components)
        = map (map Some) (product_lists (map options (enumeratedAxes components)))"
  proof (cases "enumeratedAxes components = []")
    case True
    then show ?thesis
      by (simp add: buildScenarioList_def Let_def collectCategories_eq)
  next
    case False
    with h show ?thesis
      by (simp add: buildScenarioList_def Let_def collectCategories_eq walk_choices)
  qed
  from h show "distinct (map (\<lambda>s. map_of (overrides s)) (buildScenarioList components))"
    by (simp add: distinct_overrides_buildScenarioList)
qed

theorem scenario_enumeration_witness:
  "length (buildScenarioList [climate, landscape]) = 4
   \<and> map label (buildScenarioList [climate, landscape]) =
       [''L1S1.amp=Seasonal Amplitude 0.4, L1S2.move_cost=Movement Cost 0.2'',
        ''L1S1.amp=Seasonal Amplitude 0.4, L1S2.move_cost=Movement Cost 0.5'',
        ''L1S1.amp=Seasonal Amplitude 0.8, L1S2.move_cost=Movement Cost 0.2'',
        ''L1S1.amp=Seasonal Amplitude 0.8, L1S2.move_cost=Movement Cost 0.5'']
   \<and> distinct (map (\<lambda>s. map_of (overrides s)) (buildScenarioList [climate, landscape]))"
proof -
  have keys: "distinct (map compoundKey (enumeratedAxes [climate, landscape]))"
    by (simp add: axes_sample1 compoundKey_def)
  have opts: "\<forall>a \<in> set (enumeratedAxes [climate, landscape]). distinct (options a)"
    by (simp add: axes_sample1)
  from scenario_enumeration [of "[climate, landscape]"] keys opts
  have n: "length (buildScenarioList [climate, landscape]) =
      prod_list (map (\<lambda>a. length (options a)) (enumeratedAxes [climate, landscape]))"
    and l: "map label (buildScenarioList [climate, landscape]) =
      expectedLabels (enumeratedAxes [climate, landscape])"
    and d: "distinct (map (\<lambda>s. map_of (overrides s)) (buildScenarioList [climate, landscape]))"
    by blast+
  have n4: "prod_list (map (\<lambda>a. length (options a)) (enumeratedAxes [climate, landscape])) = 4"
    by (simp add: axes_sample1)
  have l4: "expectedLabels (enumeratedAxes [climate, landscape]) =
       [''L1S1.amp=Seasonal Amplitude 0.4, L1S2.move_cost=Movement Cost 0.2'',
        ''L1S1.amp=Seasonal Amplitude 0.4, L1S2.move_cost=Movement Cost 0.5'',
        ''L1S1.amp=Seasonal Amplitude 0.8, L1S2.move_cost=Movement Cost 0.2'',
        ''L1S1.amp=Seasonal Amplitude 0.8, L1S2.move_cost=Movement Cost 0.5'']"
    by (simp add: axes_sample1 expectedLabels_def expectedLabel_def labelPart_def)
  from n l d show ?thesis
    by (simp only: n4 l4)
qed

text \<open>
  The claim as stated fails where an axis repeats an option: the editor keeps the
  repetition, the two scenarios of the axis carry the same override map.
\<close>

theorem repeated_option_counterexample:
  "length (buildScenarioList [repeatedOption]) = 2
   \<and> \<not> distinct (map (\<lambda>s. map_of (overrides s)) (buildScenarioList [repeatedOption]))"
proof -
  have "buildScenarioList [repeatedOption] =
      [\<lparr> label = ''L1S1.mode=A'', overrides = [(''L1S1::mode'', ''A'')] \<rparr>,
       \<lparr> label = ''L1S1.mode=A'', overrides = [(''L1S1::mode'', ''A'')] \<rparr>]"
    by (simp add: buildScenarioList_def Let_def collectCategories_eq axes_repeatedOption
          compoundKey_def labelPart_def)
  then show ?thesis by simp
qed

section \<open>The dispatch loop\<close>

lemma get_createError [simp]:
  "get (createError c m hs ds) ''code'' = c"
  "get (createError c m hs ds) ''message'' = m"
  by (simp_all add: createError_def get_def)

lemma truthy_createError [simp]:
  "truthy (createError c m hs ds)" "typeofObject (createError c m hs ds)"
  by (simp_all add: createError_def truthy_def typeofObject_def)

lemma codeOf_createError [simp]: "codeOf (createError c m hs ds) = c"
  by (simp add: codeOf_def)

lemma codeOf_normalizeError_structured:
  "codeOf (normalizeError (ThrownValue (createError (JStr c) (JStr m) hs ds)) fc fm fh) = JStr c"
  by (simp add: normalizeError_def isString_def)

lemma codeOf_normalizeError_raised:
  "codeOf (normalizeError (ThrownError name msg) fc fm fh) = fc"
  by (simp add: normalizeError_def)

lemma dispatchLoop_prefix_error:
  "i \<le> length scs \<Longrightarrow>
   (\<forall>j<i. passes limits env (i0 + j)
          \<and> (\<exists>r. dispatchScenario env (i0 + j) (scs ! j) = (True, Inr r))) \<Longrightarrow>
   dispatchLoop limits env (i0 + i) (drop i scs) = (d, Inl e) \<Longrightarrow>
   dispatchLoop limits env i0 scs = (take i scs @ d, Inl e)"
proof (induction i arbitrary: i0 scs)
  case 0
  then show ?case by simp
next
  case (Suc i)
  from Suc.prems(1) obtain sc rest where scs: "scs = sc # rest"
    by (cases scs) auto
  from Suc.prems(2) have first: "passes limits env i0"
    and res: "\<exists>r. dispatchScenario env i0 sc = (True, Inr r)"
    using scs by (auto dest: spec [where x = 0])
  have later: "\<forall>j<i. passes limits env (Suc i0 + j)
      \<and> (\<exists>r. dispatchScenario env (Suc i0 + j) (rest ! j) = (True, Inr r))"
  proof (intro allI impI)
    fix j assume "j < i"
    then have "Suc j < Suc i" by simp
    with Suc.prems(2) have "passes limits env (i0 + Suc j)
       \<and> (\<exists>r. dispatchScenario env (i0 + Suc j) (scs ! Suc j) = (True, Inr r))"
      by blast
    then show "passes limits env (Suc i0 + j)
       \<and> (\<exists>r. dispatchScenario env (Suc i0 + j) (rest ! j) = (True, Inr r))"
      by (simp add: scs)
  qed
  from Suc.prems(1) scs have len: "i \<le> length rest" by simp
  from Suc.prems(3) scs have tail: "dispatchLoop limits env (Suc i0 + i) (drop i rest) = (d, Inl e)"
    by simp
  from Suc.IH [OF len later tail]
  have "dispatchLoop limits env (Suc i0) rest = (take i rest @ d, Inl e)" .
  with first res show ?case
    by (auto simp: scs passes_def)
qed

lemma dispatchLoop_success:
  "dispatchLoop limits env i0 scs = (d, Inr rs) \<Longrightarrow> d = scs \<and> map fst rs = map label scs"
proof (induction scs arbitrary: i0 d rs)
  case Nil
  then show ?case by simp
next
  case (Cons sc scs)
  then show ?case
    by (auto split: if_splits prod.splits sum.splits)
qed

text \<open>
  A scenario for which the loop got a result: the payload was built and passed the bridge
  check, and the dispatcher's \<^verbatim>\<open>run\<close>, called on that payload, returned the
  result.
\<close>

lemma dispatchScenario_result:
  "dispatchScenario env i sc = (called, Inr r) \<Longrightarrow>
     called
     \<and> (\<exists>overrideMap payload.
           buildPayloadWithOverrides env overrideMap = Inr payload
           \<and> assertRunPayloadBridge payload = Inr ()
           \<and> run (settleAt env i payload) = Inr r)"
  by (auto simp: dispatchScenario_def split: sum.splits)

lemma dispatchLoop_results:
  "dispatchLoop limits env i0 scs = (d, Inr rs) \<Longrightarrow>
     length rs = length scs
     \<and> (\<forall>j<length scs.
           dispatchScenario env (i0 + j) (scs ! j) = (True, Inr (snd (rs ! j)))
           \<and> (\<exists>overrideMap payload.
                 buildPayloadWithOverrides env overrideMap = Inr payload
                 \<and> assertRunPayloadBridge payload = Inr ()
                 \<and> run (settleAt env (i0 + j) payload) = Inr (snd (rs ! j))))"
proof (induction scs arbitrary: i0 d rs)
  case Nil
  then show ?case by simp
next
  case (Cons sc scs)
  from Cons.prems obtain called r d' rs' where
    first: "dispatchScenario env i0 sc = (called, Inr r)"
    and rest: "dispatchLoop limits env (Suc i0) scs = (d', Inr rs')"
    and rs: "rs = (label sc, r) # rs'"
    by (auto split: if_splits prod.splits sum.splits)
  from dispatchScenario_result [OF first] have called: "called"
    and ran: "\<exists>overrideMap payload.
        buildPayloadWithOverrides env overrideMap = Inr payload
        \<and> assertRunPayloadBridge payload = Inr ()
        \<and> run (settleAt env i0 payload) = Inr r"
    by blast+
  note IH = Cons.IH [OF rest]
  show ?case
  proof (intro conjI allI impI)
    from IH show "length rs = length (sc # scs)"
      by (simp add: rs)
  next
    fix j assume "j < length (sc # scs)"
    then show "dispatchScenario env (i0 + j) ((sc # scs) ! j) = (True, Inr (snd (rs ! j)))"
      using IH first called by (cases j) (simp_all add: rs)
  next
    fix j assume "j < length (sc # scs)"
    then show "\<exists>overrideMap payload.
        buildPayloadWithOverrides env overrideMap = Inr payload
        \<and> assertRunPayloadBridge payload = Inr ()
        \<and> run (settleAt env (i0 + j) payload) = Inr (snd (rs ! j))"
      using IH ran by (cases j) (simp_all add: rs)
  qed
qed

lemma dispatchLoop_all_succeed:
  "(\<forall>j<length scs. passes limits env (i0 + j)
       \<and> (\<exists>r. dispatchScenario env (i0 + j) (scs ! j) = (True, Inr r))) \<Longrightarrow>
   \<exists>rs. dispatchLoop limits env i0 scs = (scs, Inr rs) \<and> length rs = length scs"
proof (induction scs arbitrary: i0)
  case Nil
  then show ?case by simp
next
  case (Cons sc scs)
  from Cons.prems have first: "passes limits env i0"
    and res: "\<exists>r. dispatchScenario env i0 sc = (True, Inr r)"
    by (auto dest: spec [where x = 0])
  have "\<forall>j<length scs. passes limits env (Suc i0 + j)
      \<and> (\<exists>r. dispatchScenario env (Suc i0 + j) (scs ! j) = (True, Inr r))"
  proof (intro allI impI)
    fix j assume "j < length scs"
    then have "Suc j < length (sc # scs)" by simp
    with Cons.prems have "passes limits env (i0 + Suc j)
       \<and> (\<exists>r. dispatchScenario env (i0 + Suc j) ((sc # scs) ! Suc j) = (True, Inr r))"
      by blast
    then show "passes limits env (Suc i0 + j)
       \<and> (\<exists>r. dispatchScenario env (Suc i0 + j) (scs ! j) = (True, Inr r))"
      by simp
  qed
  from Cons.IH [OF this] obtain rs where
    "dispatchLoop limits env (Suc i0) scs = (scs, Inr rs)" "length rs = length scs"
    by blast
  with first res show ?case
    by (auto simp: passes_def)
qed

text \<open>
  The loop stopped at the top of iteration \<open>i\<close>: the iterations before it succeeded, and
  at \<open>i\<close> the flag is set or the time is over. The cancellation check comes first.
\<close>

lemma dispatchLoop_stops_at:
  assumes "i < length scs"
    and "succeededBefore limits env scs i"
    and "cancelRequestedAt env i \<or> int (maxRunMs limits) < nowAt env i - runStartMs env"
  shows "dispatchLoop limits env 0 scs =
     (take i scs,
      Inl (ThrownValue (if cancelRequestedAt env i then cancelledError
                        else limitExceededError limits)))"
proof -
  from assms(1) obtain sc rest where d: "drop i scs = sc # rest"
    by (cases "drop i scs") auto
  from assms(3) have stop:
    "dispatchLoop limits env (0 + i) (drop i scs) =
       ([], Inl (ThrownValue (if cancelRequestedAt env i then cancelledError
                              else limitExceededError limits)))"
    by (auto simp: d)
  from assms(1) have le: "i \<le> length scs" by simp
  from assms(2) have before:
    "\<forall>j<i. passes limits env (0 + j)
        \<and> (\<exists>r. dispatchScenario env (0 + j) (scs ! j) = (True, Inr r))"
    by (simp add: succeededBefore_def)
  from dispatchLoop_prefix_error [OF le before stop] show ?thesis
    by simp
qed

lemma runSimulation_stops_at:
  assumes "\<not> isRunning" and "pyodideReady"
    and "validateConfigPayload config streamDefs limits = Inr []"
    and "i < length (take (maxScenarios limits) (buildScenarioList components))"
    and "succeededBefore limits env (take (maxScenarios limits) (buildScenarioList components)) i"
    and "cancelRequestedAt env i \<or> int (maxRunMs limits) < nowAt env i - runStartMs env"
  shows "\<exists>e. runSimulation isRunning pyodideReady streamDefs limits config components env =
           (RunFailed e, take i (take (maxScenarios limits) (buildScenarioList components)))
         \<and> codeOf e = JStr (if cancelRequestedAt env i then CANCELLED else LIMIT_EXCEEDED)"
proof -
  have code: "codeOf (normalizeError
      (ThrownValue (if cancelRequestedAt env i then cancelledError else limitExceededError limits))
      fc fm fh) = JStr (if cancelRequestedAt env i then CANCELLED else LIMIT_EXCEEDED)" for fc fm fh
    by (simp add: cancelledError_def limitExceededError_def codeOf_normalizeError_structured)
  from assms(1,2,3) dispatchLoop_stops_at [OF assms(4,5,6)] code show ?thesis
    by (simp add: runSimulation_def Let_def buildScenarioList_nonempty)
qed

lemma runSimulation_done:
  assumes "\<not> isRunning" and "pyodideReady"
    and "validateConfigPayload config streamDefs limits = Inr []"
    and "0 < maxScenarios limits"
    and "succeededBefore limits env (take (maxScenarios limits) (buildScenarioList components))
           (length (take (maxScenarios limits) (buildScenarioList components)))"
  shows "\<exists>artifact. runSimulation isRunning pyodideReady streamDefs limits config components env =
           (Done artifact, take (maxScenarios limits) (buildScenarioList components))"
proof -
  let ?scs = "take (maxScenarios limits) (buildScenarioList components)"
  from assms(5) have "\<forall>j<length ?scs. passes limits env (0 + j)
      \<and> (\<exists>r. dispatchScenario env (0 + j) (?scs ! j) = (True, Inr r))"
    by (simp add: succeededBefore_def)
  from dispatchLoop_all_succeed [OF this] obtain rs where
    loop: "dispatchLoop limits env 0 ?scs = (?scs, Inr rs)" and len: "length rs = length ?scs"
    by blast
  from assms(4) have "0 < length ?scs"
    using buildScenarioList_nonempty [of components]
    by (cases "buildScenarioList components") auto
  with len obtain r rest where "rs = r # rest"
    by (cases rs) auto
  with assms(1,2,3) loop show ?thesis
    by (cases r) (simp add: runSimulation_def Let_def buildScenarioList_nonempty)
qed

subsection \<open>The example runs\<close>

lemma dispatchScenario_quiet:
  "buildPayloadWithOverrides env = (\<lambda>overrideMap. Inr examplePayload) \<Longrightarrow>
   settleAt env = (\<lambda>i payload. Resolved (JStr ''run_ok'') exampleResult) \<Longrightarrow>
   dispatchScenario env i sc = (True, Inr exampleResult)"
  by (simp add: dispatchScenario_def assertRunPayloadBridge_def examplePayload_def run_def
        validateRunResultShape_def exampleResult_def get_def truthy_def typeofObject_def
        isArray_def)

lemmas validate_example_defs =
  validateConfigPayload_def validateLayer_def validateStream_def controlErrors_def
  readControls_def configOf_def streamOf_def STREAM_DEFS_def RUN_LIMITS_def get_def truthy_def
  typeofObject_def ToNumber_def isFinite_def numLess_def numOfNat_def orElse_def isString_def
  hasProperty_def objectPrototypeKeys_def climateParams_def

lemma validate_sample1: "validateConfigPayload sample1Config STREAM_DEFS RUN_LIMITS = Inr []"
  by (simp add: sample1Config_def validate_example_defs)

lemma validate_sevenStreams:
  "validateConfigPayload sevenStreamsConfig STREAM_DEFS RUN_LIMITS = Inr []"
  by (simp add: sevenStreamsConfig_def validate_example_defs)

lemma length_sevenStreams_scenarios: "length (buildScenarioList sevenStreams) = 128"
proof -
  have "map (\<lambda>a. length (options a)) (enumeratedAxes sevenStreams) = [2, 2, 2, 2, 2, 2, 2]"
    by code_simp
  then show ?thesis
    by (simp add: length_buildScenarioList)
qed

lemma length_sample1_scenarios: "length (buildScenarioList [climate, landscape]) = 4"
  by (simp add: length_buildScenarioList axes_sample1)

section \<open>Claims about the run orchestrator\<close>

text \<open>
  C10. For every state the enumerator returns a non-empty list: a condition axis left
  without options is not enumerated, and with no axis enumerated the list is the single
  \<^verbatim>\<open>Base\<close> scenario. So no call of \<^verbatim>\<open>runSimulation\<close> ends in its
  zero-scenarios branch.
\<close>

theorem zero_scenarios_branch_unreachable:
  "buildScenarioList components \<noteq> []
   \<and> fst (runSimulation isRunning pyodideReady streamDefs limits config components env)
       \<noteq> NoScenarios"
proof
  show "buildScenarioList components \<noteq> []"
    by (rule buildScenarioList_nonempty)
  show "fst (runSimulation isRunning pyodideReady streamDefs limits config components env)
      \<noteq> NoScenarios"
    by (auto simp: runSimulation_def Let_def buildScenarioList_nonempty
          split: sum.splits prod.splits list.splits)
qed

theorem zero_scenarios_branch_unreachable_witness:
  "enumeratedAxes [emptyAxis] = []
   \<and> buildScenarioList [emptyAxis] \<noteq> []
   \<and> fst (runSimulation False True STREAM_DEFS RUN_LIMITS sample1Config [emptyAxis] quietEnv)
       \<noteq> NoScenarios"
proof -
  have none: "enumeratedAxes [emptyAxis] = []"
    by code_simp
  from none
    zero_scenarios_branch_unreachable
      [of "[emptyAxis]" False True STREAM_DEFS RUN_LIMITS sample1Config quietEnv]
  show ?thesis by blast
qed

text \<open>
  C2. Whenever a run ends with an artifact and the enumerated list is longer than
  \<^verbatim>\<open>maxScenarios\<close>, the scenarios dispatched are exactly the first
  \<^verbatim>\<open>maxScenarios\<close> of the list, and each of them was dispatched indeed: at
  iteration \<open>j\<close> a payload was built, passed the bridge check and was given to the
  dispatcher's \<^verbatim>\<open>run\<close>, which returned a result. The artifact's episodes are
  those of the result \<^verbatim>\<open>run\<close> returned for the first scenario, and its warnings
  contain the truncation notice. The enumerator does not cap: its list has the full product
  of the option counts.
\<close>

theorem truncation_by_orchestrator:
  assumes "runSimulation isRunning pyodideReady streamDefs limits config components env
             = (Done artifact, dispatched)"
    and "maxScenarios limits < length (buildScenarioList components)"
  shows "dispatched = take (maxScenarios limits) (buildScenarioList components)
       \<and> length dispatched = maxScenarios limits
       \<and> (\<forall>j<maxScenarios limits.
             \<exists>overrideMap payload r.
               buildPayloadWithOverrides env overrideMap = Inr payload
               \<and> assertRunPayloadBridge payload = Inr ()
               \<and> run (settleAt env j payload) = Inr r
               \<and> dispatchScenario env j (dispatched ! j) = (True, Inr r))
       \<and> (\<exists>overrideMap payload r.
             buildPayloadWithOverrides env overrideMap = Inr payload
             \<and> assertRunPayloadBridge payload = Inr ()
             \<and> run (settleAt env 0 payload) = Inr r
             \<and> art_episodes artifact = orElse (get r ''episodes'') (JArr []))
       \<and> truncationNotice limits \<in> set (art_warnings artifact)
       \<and> length (buildScenarioList components) =
           prod_list (map (\<lambda>a. length (options a)) (enumeratedAxes components))"
proof -
  let ?scs = "take (maxScenarios limits) (buildScenarioList components)"
  from assms(1) obtain d l0 r0 rs where
    loop: "dispatchLoop limits env 0 ?scs = (d, Inr ((l0, r0) # rs))"
    and out: "dispatched = d"
    and episodes: "art_episodes artifact = orElse (get r0 ''episodes'') (JArr [])"
    and warn: "art_warnings artifact =
        (if length ?scs < length (buildScenarioList components) then [truncationNotice limits]
         else []) @ (case memoryWarning env of Some w \<Rightarrow> [w] | None \<Rightarrow> [])"
    by (auto simp: runSimulation_def Let_def buildRunResultV2_def
          split: if_splits sum.splits prod.splits list.splits)
  from dispatchLoop_success [OF loop] out have d: "dispatched = ?scs"
    by simp
  from assms(2) have len: "length ?scs = maxScenarios limits"
    by simp
  from dispatchLoop_results [OF loop] len d
  have each: "\<forall>j<maxScenarios limits.
      dispatchScenario env j (dispatched ! j) = (True, Inr (snd (((l0, r0) # rs) ! j)))
      \<and> (\<exists>overrideMap payload.
            buildPayloadWithOverrides env overrideMap = Inr payload
            \<and> assertRunPayloadBridge payload = Inr ()
            \<and> run (settleAt env j payload) = Inr (snd (((l0, r0) # rs) ! j)))"
    by simp
  have ran: "\<forall>j<maxScenarios limits.
      \<exists>overrideMap payload r.
        buildPayloadWithOverrides env overrideMap = Inr payload
        \<and> assertRunPayloadBridge payload = Inr ()
        \<and> run (settleAt env j payload) = Inr r
        \<and> dispatchScenario env j (dispatched ! j) = (True, Inr r)"
  proof (intro allI impI)
    fix j assume "j < maxScenarios limits"
    with each show "\<exists>overrideMap payload r.
        buildPayloadWithOverrides env overrideMap = Inr payload
        \<and> assertRunPayloadBridge payload = Inr ()
        \<and> run (settleAt env j payload) = Inr r
        \<and> dispatchScenario env j (dispatched ! j) = (True, Inr r)"
      by blast
  qed
  from dispatchLoop_results [OF loop] have "0 < length ?scs"
    by auto
  with len have "0 < maxScenarios limits"
    by simp
  with each have "\<exists>overrideMap payload.
      buildPayloadWithOverrides env overrideMap = Inr payload
      \<and> assertRunPayloadBridge payload = Inr ()
      \<and> run (settleAt env 0 payload) = Inr (snd (((l0, r0) # rs) ! 0))"
    by blast
  with episodes have first: "\<exists>overrideMap payload r.
      buildPayloadWithOverrides env overrideMap = Inr payload
      \<and> assertRunPayloadBridge payload = Inr ()
      \<and> run (settleAt env 0 payload) = Inr r
      \<and> art_episodes artifact = orElse (get r ''episodes'') (JArr [])"
    by auto
  from assms(2) warn len have notice: "truncationNotice limits \<in> set (art_warnings artifact)"
    by simp
  have product: "length (buildScenarioList components) =
      prod_list (map (\<lambda>a. length (options a)) (enumeratedAxes components))"
    by (rule length_buildScenarioList)
  from d len ran first notice product show ?thesis
    by blast
qed

lemma dispatchScenario_examples:
  "dispatchScenario quietEnv j sc = (True, Inr exampleResult)"
  "dispatchScenario lateEnv j sc = (True, Inr exampleResult)"
  "dispatchScenario cancelledEnv j sc = (True, Inr exampleResult)"
  by (rule dispatchScenario_quiet; simp add: quietEnv_def lateEnv_def cancelledEnv_def)+

lemma quietEnv_succeeds: "n \<le> 64 \<Longrightarrow> succeededBefore RUN_LIMITS quietEnv scs n"
  by (simp add: succeededBefore_def dispatchScenario_examples passes_def)
     (simp add: quietEnv_def RUN_LIMITS_def)

theorem truncation_by_orchestrator_witness:
  "length (buildScenarioList sevenStreams) = 128
   \<and> (\<exists>artifact.
        runSimulation False True STREAM_DEFS RUN_LIMITS sevenStreamsConfig sevenStreams quietEnv
          = (Done artifact, take 64 (buildScenarioList sevenStreams))
        \<and> ''Scenario count capped at 64.'' \<in> set (art_warnings artifact)
        \<and> art_episodes artifact = orElse (get exampleResult ''episodes'') (JArr []))
   \<and> buildPayloadWithOverrides quietEnv [] = Inr examplePayload
   \<and> assertRunPayloadBridge examplePayload = Inr ()
   \<and> run (settleAt quietEnv 63 examplePayload) = Inr exampleResult"
proof -
  have limit: "maxScenarios RUN_LIMITS = 64"
    by (simp add: RUN_LIMITS_def)
  have notice: "truncationNotice RUN_LIMITS = ''Scenario count capped at 64.''"
    by (simp add: truncationNotice_def RUN_LIMITS_def showNat_def natDigits.simps digitChar_def)
  have longer: "maxScenarios RUN_LIMITS < length (buildScenarioList sevenStreams)"
    by (simp add: limit length_sevenStreams_scenarios)
  have "succeededBefore RUN_LIMITS quietEnv
          (take (maxScenarios RUN_LIMITS) (buildScenarioList sevenStreams))
          (length (take (maxScenarios RUN_LIMITS) (buildScenarioList sevenStreams)))"
    by (rule quietEnv_succeeds) (simp add: limit)
  with validate_sevenStreams obtain artifact where
    finished: "runSimulation False True STREAM_DEFS RUN_LIMITS sevenStreamsConfig sevenStreams quietEnv
             = (Done artifact, take (maxScenarios RUN_LIMITS) (buildScenarioList sevenStreams))"
    using runSimulation_done
      [of False True sevenStreamsConfig STREAM_DEFS RUN_LIMITS quietEnv sevenStreams]
    by (auto simp: limit)
  note conclusion = truncation_by_orchestrator [OF finished longer]
  from conclusion have warned: "truncationNotice RUN_LIMITS \<in> set (art_warnings artifact)"
    by blast
  have built: "buildPayloadWithOverrides quietEnv overrideMap = Inr examplePayload"
    for overrideMap
    by (simp add: quietEnv_def)
  have settled: "settleAt quietEnv j payload = Resolved (JStr ''run_ok'') exampleResult"
    for j payload
    by (simp add: quietEnv_def)
  from conclusion have "\<exists>overrideMap payload r.
      buildPayloadWithOverrides quietEnv overrideMap = Inr payload
      \<and> assertRunPayloadBridge payload = Inr ()
      \<and> run (settleAt quietEnv 0 payload) = Inr r
      \<and> art_episodes artifact = orElse (get r ''episodes'') (JArr [])"
    by blast
  then obtain r where
    checked: "assertRunPayloadBridge examplePayload = Inr ()"
    and returned: "run (Resolved (JStr ''run_ok'') exampleResult) = Inr r"
    and episodes: "art_episodes artifact = orElse (get r ''episodes'') (JArr [])"
    by (auto simp: built settled)
  have "run (Resolved (JStr ''run_ok'') exampleResult) = Inr exampleResult"
    by (simp add: run_def validateRunResultShape_def exampleResult_def get_def truthy_def
          typeofObject_def isArray_def)
  with returned have r: "r = exampleResult"
    by simp
  from finished warned episodes checked returned show ?thesis
    by (simp add: limit notice length_sevenStreams_scenarios built settled r)
qed

text \<open>
  C3. The elapsed time is compared with \<^verbatim>\<open>maxRunMs\<close> at the top of every iteration,
  after the cancellation flag. When the scenarios before the \<open>i\<close>-th were dispatched with a
  result and the time is over at the top of iteration \<open>i\<close>, the run ends with a structured
  error and exactly those \<open>i\<close> scenarios dispatched; the error's code is
  \<^verbatim>\<open>runtime.limit_exceeded\<close>, unless the flag is set there as well, which the
  earlier check reports as \<^verbatim>\<open>runtime.cancelled\<close>.
\<close>

theorem time_limit_at_scenario_boundary:
  assumes "\<not> isRunning" and "pyodideReady"
    and "validateConfigPayload config streamDefs limits = Inr []"
    and "i < length (take (maxScenarios limits) (buildScenarioList components))"
    and "succeededBefore limits env (take (maxScenarios limits) (buildScenarioList components)) i"
    and "int (maxRunMs limits) < nowAt env i - runStartMs env"
  shows "\<exists>e. runSimulation isRunning pyodideReady streamDefs limits config components env =
           (RunFailed e, take i (take (maxScenarios limits) (buildScenarioList components)))
         \<and> codeOf e = JStr (if cancelRequestedAt env i then CANCELLED else LIMIT_EXCEEDED)"
  using assms by (intro runSimulation_stops_at) simp_all

theorem time_limit_at_scenario_boundary_witness:
  "\<exists>e. runSimulation False True STREAM_DEFS RUN_LIMITS sample1Config [climate, landscape] lateEnv
          = (RunFailed e, take 2 (buildScenarioList [climate, landscape]))
       \<and> codeOf e = JStr ''runtime.limit_exceeded''"
proof -
  have limit: "maxScenarios RUN_LIMITS = 64"
    by (simp add: RUN_LIMITS_def)
  have i: "2 < length (take (maxScenarios RUN_LIMITS) (buildScenarioList [climate, landscape]))"
    by (simp add: limit length_sample1_scenarios)
  have before: "succeededBefore RUN_LIMITS lateEnv
      (take (maxScenarios RUN_LIMITS) (buildScenarioList [climate, landscape])) 2"
    by (simp add: succeededBefore_def dispatchScenario_examples passes_def)
       (simp add: lateEnv_def quietEnv_def RUN_LIMITS_def)
  have over: "int (maxRunMs RUN_LIMITS) < nowAt lateEnv 2 - runStartMs lateEnv"
    by (simp add: lateEnv_def quietEnv_def RUN_LIMITS_def)
  have flag: "\<not> cancelRequestedAt lateEnv 2"
    by (simp add: lateEnv_def quietEnv_def)
  from time_limit_at_scenario_boundary [OF _ _ validate_sample1 i before over, of False True]
    flag
  show ?thesis
    by (simp add: limit LIMIT_EXCEEDED_def)
qed

lemma dispatchLoop_fails_at:
  assumes "i < length scs"
    and "succeededBefore limits env scs i"
    and "passes limits env i"
    and "dispatchScenario env i (scs ! i) = (True, Inl e)"
  shows "dispatchLoop limits env 0 scs = (take (Suc i) scs, Inl e)"
proof -
  from assms(1) have d: "drop i scs = scs ! i # drop (Suc i) scs"
    by (simp add: Cons_nth_drop_Suc)
  from assms(3,4) have stop:
    "dispatchLoop limits env (0 + i) (drop i scs) = ([scs ! i], Inl e)"
    by (simp add: d passes_def)
  from assms(1) have le: "i \<le> length scs" by simp
  from assms(2) have before:
    "\<forall>j<i. passes limits env (0 + j)
        \<and> (\<exists>r. dispatchScenario env (0 + j) (scs ! j) = (True, Inr r))"
    by (simp add: succeededBefore_def)
  from dispatchLoop_prefix_error [OF le before stop] assms(1) show ?thesis
    by (simp add: take_Suc_conv_app_nth)
qed

lemma run_rejected_by_terminate:
  "\<exists>e. run (Rejected (ThrownValue terminationError)) = Inl e \<and> codeOf e = JStr CANCELLED
       \<and> (\<forall>fc fm fh. codeOf (normalizeError (ThrownValue e) fc fm fh) = JStr CANCELLED)"
  by (simp add: run_def terminationError_def normalizeError_def isString_def)

text \<open>
  C4. Cancellation is cooperative: the cancel button sets the flag and terminates the
  dispatcher, and when the flag is found set at the top of iteration \<open>i\<close>, the run
  ends with the code \<^verbatim>\<open>runtime.cancelled\<close> and only the \<open>i\<close>
  scenarios before it dispatched. It is destructive: \<^verbatim>\<open>terminate\<close> rejects every
  pending request with a \<^verbatim>\<open>runtime.cancelled\<close> error, empties the pending table,
  drops the worker and clears the ready flag, which only a successful \<^verbatim>\<open>init\<close>
  sets again. A request of the run that is pending at that moment is rejected that way,
  and the run ends with the code \<^verbatim>\<open>runtime.cancelled\<close> and no later scenario
  dispatched.
\<close>

theorem cancellation_cooperative_and_destructive:
  "(\<not> isRunning \<and> pyodideReady
      \<and> validateConfigPayload config streamDefs limits = Inr []
      \<and> i < length (take (maxScenarios limits) (buildScenarioList components))
      \<and> succeededBefore limits env (take (maxScenarios limits) (buildScenarioList components)) i
      \<and> cancelRequestedAt env i
    \<longrightarrow> (\<exists>e. runSimulation isRunning pyodideReady streamDefs limits config components env =
               (RunFailed e, take i (take (maxScenarios limits) (buildScenarioList components)))
             \<and> codeOf e = JStr CANCELLED))
   \<and> (\<not> isRunning \<and> pyodideReady
      \<and> validateConfigPayload config streamDefs limits = Inr []
      \<and> i < length (take (maxScenarios limits) (buildScenarioList components))
      \<and> succeededBefore limits env (take (maxScenarios limits) (buildScenarioList components)) i
      \<and> passes limits env i
      \<and> buildPayloadWithOverrides env
           (overrideMapOf (overrides (take (maxScenarios limits) (buildScenarioList components) ! i)))
          = Inr payload
      \<and> assertRunPayloadBridge payload = Inr ()
      \<and> settleAt env i payload = Rejected (ThrownValue terminationError)
    \<longrightarrow> (\<exists>e. runSimulation isRunning pyodideReady streamDefs limits config components env =
               (RunFailed e, take (Suc i) (take (maxScenarios limits) (buildScenarioList components)))
             \<and> codeOf e = JStr CANCELLED))
   \<and> cancelClick True flag rt = (True, fst (terminate rt), snd (terminate rt))
   \<and> snd (terminate rt) =
        map (\<lambda>requestId. (requestId, Rejected (ThrownValue terminationError))) (pending rt)
   \<and> codeOf terminationError = JStr CANCELLED
   \<and> pending (fst (terminate rt)) = []
   \<and> \<not> ready (fst (terminate rt))
   \<and> \<not> worker (fst (terminate rt))
   \<and> ready (fst (init (fst (terminate rt)) (Resolved (JStr ''init_ok'') info)))"
proof (intro conjI impI)
  assume h: "\<not> isRunning \<and> pyodideReady
      \<and> validateConfigPayload config streamDefs limits = Inr []
      \<and> i < length (take (maxScenarios limits) (buildScenarioList components))
      \<and> succeededBefore limits env (take (maxScenarios limits) (buildScenarioList components)) i
      \<and> cancelRequestedAt env i"
  then have "\<exists>e. runSimulation isRunning pyodideReady streamDefs limits config components env =
           (RunFailed e, take i (take (maxScenarios limits) (buildScenarioList components)))
         \<and> codeOf e = JStr (if cancelRequestedAt env i then CANCELLED else LIMIT_EXCEEDED)"
    by (intro runSimulation_stops_at) simp_all
  with h show "\<exists>e. runSimulation isRunning pyodideReady streamDefs limits config components env =
           (RunFailed e, take i (take (maxScenarios limits) (buildScenarioList components)))
         \<and> codeOf e = JStr CANCELLED"
    by simp
next
  let ?scs = "take (maxScenarios limits) (buildScenarioList components)"
  assume h: "\<not> isRunning \<and> pyodideReady
      \<and> validateConfigPayload config streamDefs limits = Inr []
      \<and> i < length ?scs
      \<and> succeededBefore limits env ?scs i
      \<and> passes limits env i
      \<and> buildPayloadWithOverrides env (overrideMapOf (overrides (?scs ! i))) = Inr payload
      \<and> assertRunPayloadBridge payload = Inr ()
      \<and> settleAt env i payload = Rejected (ThrownValue terminationError)"
  from run_rejected_by_terminate obtain e where
    e: "run (Rejected (ThrownValue terminationError)) = Inl e"
    and code: "\<And>fc fm fh. codeOf (normalizeError (ThrownValue e) fc fm fh) = JStr CANCELLED"
    by blast
  from h have built: "buildPayloadWithOverrides env (overrideMapOf (overrides (?scs ! i))) = Inr payload"
    and checked: "assertRunPayloadBridge payload = Inr ()"
    and settled: "settleAt env i payload = Rejected (ThrownValue terminationError)"
    by blast+
  have "dispatchScenario env i (?scs ! i) = (True, Inl (ThrownValue e))"
    unfolding dispatchScenario_def built by (simp add: checked settled e)
  with h have "dispatchLoop limits env 0 ?scs = (take (Suc i) ?scs, Inl (ThrownValue e))"
    by (intro dispatchLoop_fails_at) simp_all
  with h code show "\<exists>e. runSimulation isRunning pyodideReady streamDefs limits config components env =
           (RunFailed e, take (Suc i) ?scs) \<and> codeOf e = JStr CANCELLED"
    by (simp add: runSimulation_def Let_def buildScenarioList_nonempty)
qed (simp_all add: terminate_def terminationError_def init_def cancelClick_def)

theorem cancellation_cooperative_and_destructive_witness:
  "(\<exists>e. runSimulation False True STREAM_DEFS RUN_LIMITS sample1Config [climate, landscape]
           cancelledEnv
          = (RunFailed e, take 1 (buildScenarioList [climate, landscape]))
        \<and> codeOf e = JStr ''runtime.cancelled'')
   \<and> (\<exists>e. runSimulation False True STREAM_DEFS RUN_LIMITS sample1Config [climate, landscape]
           terminatedEnv
          = (RunFailed e, take 2 (buildScenarioList [climate, landscape]))
        \<and> codeOf e = JStr ''runtime.cancelled'')
   \<and> cancelClick True False busyRuntime =
        (True, fst (terminate busyRuntime), snd (terminate busyRuntime))
   \<and> snd (terminate busyRuntime) =
        [(''r1'', Rejected (ThrownValue terminationError)),
         (''r2'', Rejected (ThrownValue terminationError))]
   \<and> codeOf terminationError = JStr ''runtime.cancelled''
   \<and> pending (fst (terminate busyRuntime)) = []
   \<and> \<not> ready (fst (terminate busyRuntime))
   \<and> \<not> worker (fst (terminate busyRuntime))
   \<and> ready (fst (init (fst (terminate busyRuntime))
                (Resolved (JStr ''init_ok'') (JObj [(''version'', JStr ''0.26.4'')]))))"
proof -
  let ?scs = "take (maxScenarios RUN_LIMITS) (buildScenarioList [climate, landscape])"
  have limit: "maxScenarios RUN_LIMITS = 64"
    by (simp add: RUN_LIMITS_def)
  have len: "1 < length ?scs"
    by (simp add: limit length_sample1_scenarios)
  have before1: "succeededBefore RUN_LIMITS cancelledEnv ?scs 1"
    by (simp add: succeededBefore_def dispatchScenario_examples passes_def)
       (simp add: cancelledEnv_def quietEnv_def RUN_LIMITS_def)
  have flag: "cancelRequestedAt cancelledEnv 1"
    by (simp add: cancelledEnv_def)
  have first: "dispatchScenario terminatedEnv 0 sc = (True, Inr exampleResult)" for sc
    by (simp add: dispatchScenario_def terminatedEnv_def quietEnv_def assertRunPayloadBridge_def
          examplePayload_def run_def validateRunResultShape_def exampleResult_def get_def
          truthy_def typeofObject_def isArray_def)
  have passes2: "passes RUN_LIMITS terminatedEnv j" if "j < 2" for j
    using that by (simp add: passes_def terminatedEnv_def quietEnv_def RUN_LIMITS_def)
  have before2: "succeededBefore RUN_LIMITS terminatedEnv ?scs 1"
    by (simp add: succeededBefore_def first passes2)
  have built: "buildPayloadWithOverrides terminatedEnv (overrideMapOf (overrides (?scs ! 1)))
      = Inr examplePayload"
    by (simp add: terminatedEnv_def quietEnv_def)
  have checked: "assertRunPayloadBridge examplePayload = Inr ()"
    by (simp add: assertRunPayloadBridge_def examplePayload_def get_def truthy_def
          typeofObject_def)
  have settled: "settleAt terminatedEnv 1 examplePayload = Rejected (ThrownValue terminationError)"
    by (simp add: terminatedEnv_def)
  note at_boundary = cancellation_cooperative_and_destructive
    [where isRunning = False and pyodideReady = True and config = sample1Config
       and streamDefs = STREAM_DEFS and limits = RUN_LIMITS and i = 1
       and components = "[climate, landscape]" and env = cancelledEnv
       and payload = examplePayload and rt = busyRuntime and flag = False
       and info = "JObj [(''version'', JStr ''0.26.4'')]"]
  note in_flight = cancellation_cooperative_and_destructive
    [where isRunning = False and pyodideReady = True and config = sample1Config
       and streamDefs = STREAM_DEFS and limits = RUN_LIMITS and i = 1
       and components = "[climate, landscape]" and env = terminatedEnv
       and payload = examplePayload and rt = busyRuntime and flag = False
       and info = "JObj [(''version'', JStr ''0.26.4'')]"]
  from at_boundary validate_sample1 len before1 flag
  have a: "\<exists>e. runSimulation False True STREAM_DEFS RUN_LIMITS sample1Config [climate, landscape]
              cancelledEnv = (RunFailed e, take 1 ?scs) \<and> codeOf e = JStr CANCELLED"
    by blast
  from in_flight validate_sample1 len before2 passes2 [of 1] built checked settled
  have b: "\<exists>e. runSimulation False True STREAM_DEFS RUN_LIMITS sample1Config [climate, landscape]
              terminatedEnv = (RunFailed e, take (Suc 1) ?scs) \<and> codeOf e = JStr CANCELLED"
    by simp
  from at_boundary
  have click: "cancelClick True False busyRuntime =
        (True, fst (terminate busyRuntime), snd (terminate busyRuntime))"
    by blast
  from at_boundary
  have c: "snd (terminate busyRuntime) =
        map (\<lambda>requestId. (requestId, Rejected (ThrownValue terminationError))) (pending busyRuntime)"
    and d: "codeOf terminationError = JStr CANCELLED"
    and e: "pending (fst (terminate busyRuntime)) = []"
    and f: "\<not> ready (fst (terminate busyRuntime))"
    and g: "\<not> worker (fst (terminate busyRuntime))"
    and h: "ready (fst (init (fst (terminate busyRuntime))
                (Resolved (JStr ''init_ok'') (JObj [(''version'', JStr ''0.26.4'')]))))"
    by blast+
  have p: "pending busyRuntime = [''r1'', ''r2'']"
    by (simp add: busyRuntime_def)
  from a b click c d e f g h show ?thesis
    by (simp add: limit CANCELLED_def p numeral_2_eq_2)
qed

section \<open>Claims about the execution dispatcher\<close>

lemma truthy_typeofObject_isObject: "(truthy v \<and> typeofObject v) = isObject v"
  by (cases v) (simp_all add: truthy_def typeofObject_def isObject_def)

lemma validateRunResultShape_eq: "validateRunResultShape result = expectedResultShape result"
proof -
  have ep: "(truthy ep \<and> typeofObject ep \<and> isArray (get ep ''per_step'')
        \<and> truthy (get ep ''episode'') \<and> typeofObject (get ep ''episode''))
      = (isObject ep \<and> isArray (get ep ''per_step'') \<and> isObject (get ep ''episode''))" for ep
    using truthy_typeofObject_isObject [of ep]
      truthy_typeofObject_isObject [of "get ep ''episode''"]
    by blast
  have top: "(\<not> truthy result \<or> \<not> typeofObject result) = (\<not> isObject result)"
    using truthy_typeofObject_isObject [of result] by blast
  show ?thesis
    unfolding validateRunResultShape_def expectedResultShape_def top ep
    by (simp split: jsval.splits)
qed

lemma get_orElse_object: "get (orElse d (JObj [])) k = get d k"
  by (cases d) (simp_all add: orElse_def get_def truthy_def)

lemma request_pending: "snd (request rt) \<in> set (pending (fst (request rt)))"
  by (simp add: request_def Let_def)

lemma map_of_constant:
  "k \<in> set ks \<Longrightarrow> map_of (map (\<lambda>x. (x, v)) ks) k = Some v"
  by (induction ks) auto

lemma settlementOf_PostFailed:
  "snd (settlementOf rt (PostFailed name msg)) = Some (Rejected (ThrownError name msg))"
  by (simp add: settlementOf_def split: prod.splits)

lemma settlementOf_WorkerCrash:
  "snd (settlementOf rt (WorkerCrash m)) =
     Some (Rejected (ThrownValue
       (createError (JStr FAILED) (JStr ''Runtime worker crashed.'')
          (strs [''Reload the page and retry.'']) (JObj [(''message'', m)]))))"
  using request_pending [of rt]
  by (auto simp: settlementOf_def onerror_def map_of_constant split: prod.splits)

lemma settlementOf_Terminate:
  "snd (settlementOf rt Terminate) = Some (Rejected (ThrownValue terminationError))"
  using request_pending [of rt]
  by (auto simp: settlementOf_def terminate_def map_of_constant split: prod.splits)

lemma settlementOf_WorkerMessage:
  "snd (settlementOf rt (WorkerMessage d)) =
     (if get d ''requestId'' = JStr (snd (request rt)) then
        Some (if get d ''type'' = JStr ''error''
              then Rejected (ThrownValue
                     (createError (JStr FAILED)
                        (orElse (if isNullish (get d ''payload'') then JUndefined
                                 else get (get d ''payload'') ''message'')
                           (JStr ''Runtime worker failed.''))
                        JUndefined JUndefined))
              else Resolved (get d ''type'') (get d ''payload''))
      else None)"
  using request_pending [of rt]
  by (auto simp: settlementOf_def onmessage_def Let_def get_orElse_object
        split: prod.splits jsval.splits)

lemma FAILED_not_BAD_RESULT_SHAPE [simp]:
  "FAILED \<noteq> BAD_RESULT_SHAPE" "CANCELLED \<noteq> BAD_RESULT_SHAPE"
  "BAD_RESULT_SHAPE \<noteq> FAILED" "BAD_RESULT_SHAPE \<noteq> CANCELLED"
  by (simp_all add: FAILED_def BAD_RESULT_SHAPE_def CANCELLED_def)

lemma codeOf_normalizeError_same_code:
  "codeOf (normalizeError (ThrownValue (createError (JStr c) m hs ds)) (JStr c) fm fh) = JStr c"
  by (simp add: normalizeError_def isString_def)

lemma run_resolved:
  "run (Resolved ty p) =
     (if ty \<noteq> JStr ''run_ok''
      then Inl (createError (JStr FAILED) (JStr ''Runtime returned an unexpected message type.'')
                  (JArr []) (JObj []))
      else if \<not> expectedResultShape p
      then Inl (createError (JStr BAD_RESULT_SHAPE) (JStr ''Runtime returned an invalid result shape.'')
                  (strs [''Check simulation payload and stream configuration.'']) (JObj []))
      else Inr p)"
  by (simp add: run_def normalizeError_def isString_def validateRunResultShape_eq orElse_def
        createError_def get_def truthy_def typeofObject_def isArray_def strs_def)

lemma run_rejected_failed:
  "\<exists>e. run (Rejected (ThrownValue (createError (JStr FAILED) m hs ds))) = Inl e
       \<and> codeOf e = JStr FAILED"
  by (simp add: run_def codeOf_normalizeError_same_code)

lemma run_rejected_raised:
  "\<exists>e. run (Rejected (ThrownError name msg)) = Inl e \<and> codeOf e = JStr FAILED"
  by (simp add: run_def normalizeError_def)

lemma run_rejected_terminated:
  "\<exists>e. run (Rejected (ThrownValue terminationError)) = Inl e \<and> codeOf e = JStr CANCELLED"
  by (simp add: run_def terminationError_def normalizeError_def isString_def)

text \<open>
  C6. Whenever the request of \<^verbatim>\<open>run\<close> is settled, \<^verbatim>\<open>run\<close> fails with
  the code \<^verbatim>\<open>runtime.bad_result_shape\<close> exactly when the worker answered the
  request with a \<^verbatim>\<open>run_ok\<close> message whose payload does not have the expected
  result shape; a \<^verbatim>\<open>run_ok\<close> payload of that shape is returned as it is.
  Object is meant as JavaScript means it, so an array passes where an object is expected.
\<close>

theorem bad_result_shape_exactly_when:
  assumes "runOn rt ev = Some r"
  shows "((\<exists>e. r = Inl e \<and> codeOf e = JStr BAD_RESULT_SHAPE)
          \<longleftrightarrow> (\<exists>d. ev = WorkerMessage d \<and> get d ''type'' = JStr ''run_ok''
                  \<and> \<not> expectedResultShape (get d ''payload'')))
       \<and> (\<forall>d. ev = WorkerMessage d \<and> get d ''type'' = JStr ''run_ok''
                  \<and> expectedResultShape (get d ''payload'')
              \<longrightarrow> r = Inr (get d ''payload''))"
proof (cases ev)
  case (WorkerMessage d)
  show ?thesis
  proof (cases "get d ''requestId'' = JStr (snd (request rt))")
    case False
    with assms WorkerMessage show ?thesis
      by (simp add: runOn_def settlementOf_WorkerMessage)
  next
    case True
    show ?thesis
    proof (cases "get d ''type'' = JStr ''error''")
      case error: True
      from run_rejected_failed obtain e where
        "run (Rejected (ThrownValue
           (createError (JStr FAILED)
              (orElse (if isNullish (get d ''payload'') then JUndefined
                       else get (get d ''payload'') ''message'')
                 (JStr ''Runtime worker failed.''))
              JUndefined JUndefined))) = Inl e" "codeOf e = JStr FAILED"
        by blast
      with assms WorkerMessage True error show ?thesis
        by (auto simp: runOn_def settlementOf_WorkerMessage)
    next
      case False
      with assms WorkerMessage True have "r = run (Resolved (get d ''type'') (get d ''payload''))"
        by (simp add: runOn_def settlementOf_WorkerMessage)
      with WorkerMessage show ?thesis
        by (auto simp: run_resolved)
    qed
  qed
next
  case (WorkerCrash m)
  from run_rejected_failed obtain e where
    "run (Rejected (ThrownValue
       (createError (JStr FAILED) (JStr ''Runtime worker crashed.'')
          (strs [''Reload the page and retry.'']) (JObj [(''message'', m)])))) = Inl e"
    "codeOf e = JStr FAILED"
    by blast
  with assms WorkerCrash show ?thesis
    by (auto simp: runOn_def settlementOf_WorkerCrash)
next
  case Terminate
  from run_rejected_terminated obtain e where
    "run (Rejected (ThrownValue terminationError)) = Inl e" "codeOf e = JStr CANCELLED"
    by blast
  with assms Terminate show ?thesis
    by (auto simp: runOn_def settlementOf_Terminate)
next
  case (PostFailed name msg)
  from run_rejected_raised obtain e where
    "run (Rejected (ThrownError name msg)) = Inl e" "codeOf e = JStr FAILED"
    by blast
  with assms PostFailed show ?thesis
    by (auto simp: runOn_def settlementOf_PostFailed)
qed

theorem bad_result_shape_exactly_when_witness:
  "(\<exists>e. runOn idleRuntime (WorkerMessage badReply) = Some (Inl e)
        \<and> codeOf e = JStr ''runtime.bad_result_shape'')
   \<and> runOn idleRuntime (WorkerMessage goodReply) = Some (Inr exampleResult)"
proof -
  have rid: "snd (request idleRuntime) = ''r1''"
    by (simp add: request_def ensureWorker_def idleRuntime_def showNat_def natDigits.simps
          digitChar_def Let_def)
  have bad: "runOn idleRuntime (WorkerMessage badReply) =
      Some (run (Resolved (JStr ''run_ok'') (get badReply ''payload'')))"
    by (simp add: runOn_def settlementOf_WorkerMessage rid) (simp add: badReply_def get_def)
  have good: "runOn idleRuntime (WorkerMessage goodReply) =
      Some (run (Resolved (JStr ''run_ok'') (get goodReply ''payload'')))"
    by (simp add: runOn_def settlementOf_WorkerMessage rid) (simp add: goodReply_def get_def)
  have bad_type: "get badReply ''type'' = JStr ''run_ok''"
    and bad_shape: "\<not> expectedResultShape (get badReply ''payload'')"
    by (simp_all add: badReply_def get_def expectedResultShape_def isObject_def isArray_def)
  have good_type: "get goodReply ''type'' = JStr ''run_ok''"
    and good_payload: "get goodReply ''payload'' = exampleResult"
    and good_shape: "expectedResultShape (get goodReply ''payload'')"
    by (simp_all add: goodReply_def get_def expectedResultShape_def exampleResult_def
          isObject_def isArray_def)
  from bad_result_shape_exactly_when [OF bad] bad_type bad_shape
  have a: "\<exists>e. run (Resolved (JStr ''run_ok'') (get badReply ''payload'')) = Inl e
      \<and> codeOf e = JStr BAD_RESULT_SHAPE"
    by blast
  from bad_result_shape_exactly_when [OF good] good_type good_shape
  have b: "run (Resolved (JStr ''run_ok'') (get goodReply ''payload'')) = Inr (get goodReply ''payload'')"
    by blast
  from a b show ?thesis
    by (simp add: bad good good_payload BAD_RESULT_SHAPE_def)
qed

section \<open>Claims about the parameter metadata\<close>




lemma assignProperty_other_label:
  "x \<noteq> ''__proto__'' \<Longrightarrow>
     ownEntries (assignProperty m x v) ''__proto__'' = ownEntries m ''__proto__''
     \<and> prototypeOf (assignProperty m x v) = prototypeOf m"
  by (simp add: assignProperty_def)

lemma fold_assignProperty_snoc:
  "fold (\<lambda>(idx, opt) m. assignProperty m opt (f opt idx)) (enumerate n (xs @ [x])) m0 =
     assignProperty (fold (\<lambda>(idx, opt) m. assignProperty m opt (f opt idx)) (enumerate n xs) m0)
       x (f x (n + length xs))"
  by (simp add: enumerate_append_eq)


text \<open>
  The label \<^verbatim>\<open>__proto__\<close> when every value assigned under it is the same: the
  first assignment runs the setter; a later one creates an own property exactly when the
  setter is no longer reached, that is, when the value is \<^verbatim>\<open>null\<close> or an object
  that owns a property \<^verbatim>\<open>__proto__\<close>.
\<close>

lemma filled_proto:
  assumes "\<forall>idx. f ''__proto__'' idx = c"
  shows "ownEntries (fold (\<lambda>(idx, opt) m. assignProperty m opt (f opt idx)) (enumerate n xs)
             \<lparr> ownEntries = Map.empty, prototypeOf = ObjectPrototype \<rparr>) ''__proto__'' =
           (if 2 \<le> count_list xs ''__proto__'' \<and> shadowsProtoSetter c then Some c else None)
       \<and> prototypeOf (fold (\<lambda>(idx, opt) m. assignProperty m opt (f opt idx)) (enumerate n xs)
             \<lparr> ownEntries = Map.empty, prototypeOf = ObjectPrototype \<rparr>) =
           (if count_list xs ''__proto__'' = 0 then ObjectPrototype
            else setterPrototype ObjectPrototype c)"
proof (induction xs rule: rev_induct)
  case Nil
  show ?case by simp
next
  case (snoc x xs)
  let ?m = "fold (\<lambda>(idx, opt) m. assignProperty m opt (f opt idx)) (enumerate n xs)
              \<lparr> ownEntries = Map.empty, prototypeOf = ObjectPrototype \<rparr>"
  from snoc.IH have own: "ownEntries ?m ''__proto__'' =
      (if 2 \<le> count_list xs ''__proto__'' \<and> shadowsProtoSetter c then Some c else None)"
    and proto: "prototypeOf ?m =
      (if count_list xs ''__proto__'' = 0 then ObjectPrototype
       else setterPrototype ObjectPrototype c)"
    by blast+
  show ?case
  proof (cases "x = ''__proto__''")
    case False
    with own proto show ?thesis
      by (simp only: fold_assignProperty_snoc assignProperty_other_label [OF False]) simp
  next
    case True
    from assms have val: "f ''__proto__'' (n + length xs) = c"
      by blast
    have step: "fold (\<lambda>(idx, opt) m. assignProperty m opt (f opt idx)) (enumerate n (xs @ [x]))
          \<lparr> ownEntries = Map.empty, prototypeOf = ObjectPrototype \<rparr>
        = assignProperty ?m ''__proto__'' c"
      by (simp only: fold_assignProperty_snoc True val)
    have count: "count_list (xs @ [x]) ''__proto__'' = Suc (count_list xs ''__proto__'')"
      by (simp add: True)
    show ?thesis
      unfolding step count
      using own proto
      by (cases c)
         (auto simp: assignProperty_def reachesProtoSetter_def setterPrototype_def
            shadowsProtoSetter_def)
  qed
qed

text \<open>
  The label \<^verbatim>\<open>__proto__\<close> when the setter ignores every value assigned under it
  (numbers, as the indices are): the object never gets an own property of that name.
\<close>

lemma filled_proto_ignored:
  assumes "\<forall>idx. setterPrototype ObjectPrototype (f ''__proto__'' idx) = ObjectPrototype"
  shows "ownEntries (fold (\<lambda>(idx, opt) m. assignProperty m opt (f opt idx)) (enumerate n xs)
             \<lparr> ownEntries = Map.empty, prototypeOf = ObjectPrototype \<rparr>) ''__proto__'' = None
       \<and> prototypeOf (fold (\<lambda>(idx, opt) m. assignProperty m opt (f opt idx)) (enumerate n xs)
             \<lparr> ownEntries = Map.empty, prototypeOf = ObjectPrototype \<rparr>) = ObjectPrototype"
proof (induction xs rule: rev_induct)
  case Nil
  show ?case by simp
next
  case (snoc x xs)
  show ?case
  proof (cases "x = ''__proto__''")
    case False
    with snoc.IH show ?thesis
      by (simp only: fold_assignProperty_snoc assignProperty_other_label [OF False])
  next
    case True
    from assms have
      "setterPrototype ObjectPrototype (f ''__proto__'' (n + length xs)) = ObjectPrototype"
      by blast
    with snoc.IH show ?thesis
      by (simp only: fold_assignProperty_snoc True)
         (simp add: assignProperty_def reachesProtoSetter_def)
  qed
qed



lemma meta_options_normalizeCategoryMeta:
  "meta_options (normalizeCategoryMeta info fallbackValue) = normalizedOptions info fallbackValue"
  by (simp add: normalizeCategoryMeta_def Let_def)


lemma shadowsProtoSetter_unparsed:
  "shadowsProtoSetter raw \<Longrightarrow> parseNumberish raw = None"
  by (cases raw) (simp_all add: shadowsProtoSetter_def parseNumberish_def)

lemma shadowsProtoSetter_number [simp]: "\<not> shadowsProtoSetter (JNum x)"
  by (simp add: shadowsProtoSetter_def)

lemma meta_map_proto_label:
  "ownEntries (meta_map (normalizeCategoryMeta info fallbackValue)) ''__proto__'' =
     (case getOwn (sourceMapOf info) ''__proto__'' of
        None \<Rightarrow> None
      | Some raw \<Rightarrow>
          if 2 \<le> count_list (normalizedOptions info fallbackValue) ''__proto__''
             \<and> shadowsProtoSetter raw
          then Some raw else None)"
proof (cases "getOwn (sourceMapOf info) ''__proto__''")
  case None
  then have "\<forall>idx. setterPrototype ObjectPrototype (mapEntry (sourceMapOf info) ''__proto__'' idx)
      = ObjectPrototype"
    by (simp add: mapEntry_def setterPrototype_def)
  from filled_proto_ignored [of "mapEntry (sourceMapOf info)", OF this] None show ?thesis
    by (simp add: normalizeCategoryMeta_def Let_def)
next
  case (Some raw)
  let ?c = "case parseNumberish raw of Some x \<Rightarrow> JNum x | None \<Rightarrow> raw"
  from Some have "\<forall>idx. mapEntry (sourceMapOf info) ''__proto__'' idx = ?c"
    by (simp add: mapEntry_def)
  from filled_proto [of "mapEntry (sourceMapOf info)", OF this]
  have own: "ownEntries (meta_map (normalizeCategoryMeta info fallbackValue)) ''__proto__'' =
      (if 2 \<le> count_list (normalizedOptions info fallbackValue) ''__proto__''
          \<and> shadowsProtoSetter ?c
       then Some ?c else None)"
    by (simp add: normalizeCategoryMeta_def Let_def)
  have same: "shadowsProtoSetter ?c = shadowsProtoSetter raw"
    and kept: "shadowsProtoSetter raw \<Longrightarrow> ?c = raw"
    using shadowsProtoSetter_unparsed [of raw]
    by (auto split: option.splits)
  from own same kept Some show ?thesis
    by (cases "shadowsProtoSetter raw") simp_all
qed







lemma options_protoLabelled:
  "meta_options (normalizeCategoryMeta protoLabelled JUndefined) = [''__proto__'', ''b'']"
proof -
  have "normalizedOptions protoLabelled JUndefined
      = meta_options (normalizeCategoryMeta protoLabelled JUndefined)"
    by (simp add: meta_options_normalizeCategoryMeta)
  moreover have "normalizedOptions protoLabelled JUndefined
      = [''__proto__'', ''b'']"
    by code_simp
  ultimately show ?thesis
    by simp
qed



lemma sourceMap_protoLabelled:
  "getOwn (sourceMapOf protoLabelled) ''__proto__'' = None"
  "getOwn (sourceMapOf protoLabelled) ''b'' = None"
  by (simp_all add: getOwn_def sourceMapOf_def protoLabelled_def categoryInfo_def get_def
        truthy_def typeofObject_def ownProps_def)







text \<open>
  It fails as well for the option label \<^verbatim>\<open>__proto__\<close>, which the editor accepts
  as free text: the assignment under that label creates no entry.
\<close>

lemma proto_label_without_entry:
  "meta_options (normalizeCategoryMeta protoLabelled JUndefined) = [''__proto__'', ''b'']
   \<and> ownEntries (meta_map (normalizeCategoryMeta protoLabelled JUndefined)) ''__proto__'' = None"
  by (simp add: options_protoLabelled meta_map_proto_label sourceMap_protoLabelled)

section \<open>Claims about validation and migration\<close>

lemma validate_non_object:
  "\<not> truthy config \<or> \<not> typeofObject config \<Longrightarrow>
     validateConfigPayload config streamDefs limits =
       Inr [createError (JStr CFG_INVALID) (JStr ''Config is missing or invalid.'')
              (strs [''Import a valid bundle or reset defaults.'']) (withPath ''config'')]"
  by (simp add: validateConfigPayload_def)

text \<open>
  Where the validator returns for an object, the errors of the run controls are all in
  the list: it does not stop at the first.
\<close>

lemma validate_returns_control_errors:
  assumes "validateConfigPayload config streamDefs limits = Inr errs"
    and "truthy config" and "typeofObject config"
  shows "set (controlErrors (readControls config) limits) \<subseteq> set errs"
  using assms
  by (auto simp: validateConfigPayload_def Let_def split: jsval.splits list.splits sum.splits)

lemma steps_limit_among_control_errors:
  "numLess (numOfNat (maxSteps limits)) (steps c) \<Longrightarrow>
     \<exists>e \<in> set (controlErrors c limits). codeOf e = JStr STEPS_LIMIT"
  by (simp add: controlErrors_def)

lemma episodes_invalid_among_control_errors:
  "numLess (episodes c) (Fin 1) \<Longrightarrow>
     \<exists>e \<in> set (controlErrors c limits). codeOf e = JStr EPISODES_INVALID"
  by (simp add: controlErrors_def)

text \<open>
  C5 fails on the code. The validator guards the stream and falls back to an empty object
  for a missing \<^verbatim>\<open>params\<close>, but a \<^verbatim>\<open>params\<close> that is a non-empty text
  (or a number, or \<^verbatim>\<open>true\<close>) reaches the operator \<^verbatim>\<open>in\<close>, which throws a
  \<^verbatim>\<open>TypeError\<close>: the call does not return, and the errors already collected for
  a step count over the limit and an episode count below one are lost.
\<close>

theorem validate_throws_on_text_params:
  "numLess (numOfNat (maxSteps RUN_LIMITS)) (steps (readControls brokenParamsConfig))
   \<and> numLess (episodes (readControls brokenParamsConfig)) (Fin 1)
   \<and> validateConfigPayload brokenParamsConfig STREAM_DEFS RUN_LIMITS =
       Inl (ThrownError ''TypeError''
              (''Cannot use '' @ apostrophe @ ''in'' @ apostrophe @ '' operator to search for ''
               @ apostrophe @ ''amp'' @ apostrophe @ '' in default''))"
  by (simp add: brokenParamsConfig_def validate_example_defs)

theorem validate_throws_on_text_params_witness:
  "\<forall>errs. validateConfigPayload brokenParamsConfig STREAM_DEFS RUN_LIMITS \<noteq> Inr errs"
  using validate_throws_on_text_params by simp

text \<open>
  C9. Migrating the result of a migration returns it unchanged, and a document that
  already carries the current version is returned unchanged. The model has no volatile
  field, so unchanged is equality.
\<close>

theorem migration_idempotent:
  "(migrateIncomingConfig raw = Inr migrated \<longrightarrow> migrateIncomingConfig migrated = Inr migrated)
   \<and> (get raw ''version'' = JStr PLAYGROUND_CONFIG_VERSION \<longrightarrow> migrateIncomingConfig raw = Inr raw)"
  by (auto simp: migrateIncomingConfig_def get_def split: if_splits)

theorem migration_idempotent_witness:
  "\<exists>migrated. migrateIncomingConfig v1Document = Inr migrated
     \<and> migrateIncomingConfig migrated = Inr migrated
     \<and> get migrated ''version'' = JStr ''PlaygroundConfigV2''
     \<and> get (get migrated ''controls'') ''steps'' = JNum (Fin 12)"
proof -
  obtain migrated where m: "migrateIncomingConfig v1Document = Inr migrated"
    and v: "get migrated ''version'' = JStr ''PlaygroundConfigV2''"
    and s: "get (get migrated ''controls'') ''steps'' = JNum (Fin 12)"
    by (simp add: migrateIncomingConfig_def v1Document_def get_def PLAYGROUND_CONFIG_VERSION_def
          PLAYGROUND_CONFIG_V1_def)
  from migration_idempotent [of v1Document migrated] m
  have "migrateIncomingConfig migrated = Inr migrated"
    by blast
  with m v s show ?thesis
    by blast
qed

end
